theory Spec2Isabelle
  imports Main "HOL-Library.AList" "HOL-Library.Sublist" "HOL-Library.Multiset"
    "HOL-Library.Char_ord" "HOL-Library.List_Lexorder"
begin

section \<open>Errors\<close>

text \<open>
  Every exception the two functions of \<^verbatim>\<open>wrfhydropy/core/ioutils.py\<close> can raise is a
  value. \<open>ValueError\<close> and \<open>FileNotFoundError\<close> carry the message the source (or the
  library) gives them, since one claim is about what the message says.
\<close>

datatype error =
    OpenFailure
  | ConcatenationMismatch
  | IndexError
  | ValueError string
  | OverflowError
  | FileNotFoundError string
  | FileExistsError
  | NotADirectoryError
  | IsADirectoryError
  | SameFileError
  | TooManyLinks

section \<open>The forecast assembler: \<^verbatim>\<open>open_nwmdataset\<close>\<close>

subsection \<open>Datasets and the library calls on them\<close>

text \<open>
  An instant is a count of nanoseconds since 1970-01-01T00:00:00, as
  \<^verbatim>\<open>numpy.datetime64(..., 'ns')\<close> stores it. Of an opened dataset the function reads
  and writes the \<^verbatim>\<open>reference_time\<close> coordinate (an array of instants); the model keeps
  that, the \<^verbatim>\<open>time\<close> axis, the coordinate of the one dimension that is no time
  (\<^verbatim>\<open>feature_id\<close>), the chunking the dataset was opened or re-chunked with, and the
  names of the dataset's dimensions: a coordinate that bears the name of a dimension is a
  dimension coordinate, which the library keeps as an immutable index.
\<close>

type_synonym instant = int

type_synonym chunk_spec = "(string \<times> nat) list"

record dataset =
  reference_time :: "instant list"
  time :: "instant list"
  feature_id :: "int list"
  chunking :: "chunk_spec option"
  dims :: "string list"

text \<open>\<^verbatim>\<open>np.datetime64('1970-01-01T00:00:00', 'ns')\<close>\<close>

definition epoch :: instant where
  "epoch = 0"

text \<open>
  \<^verbatim>\<open>xr.concat(objs, dim='time', coords='minimal')\<close>, the library call, by its contract:
  no object to concatenate is a \<open>ValueError\<close>; members whose other dimension differs do
  not concatenate; the coordinates that do not run along \<open>time\<close> are those of the first
  member, and the \<open>time\<close> axis is the members' axes one after the other.
\<close>

definition concat_time :: "dataset list \<Rightarrow> error + dataset" where
  "concat_time objs =
     (case objs of
        [] \<Rightarrow> Inl (ValueError ''must supply at least one object to concatenate'')
      | d # ds \<Rightarrow>
          if list_all (\<lambda>x. feature_id x = feature_id d) ds
          then Inr (d\<lparr>time := concat (map time (d # ds))\<rparr>)
          else Inl ConcatenationMismatch)"

text \<open>
  \<^verbatim>\<open>xr.concat(objs, dim='reference_time', coords='minimal')\<close>: the \<open>reference_time\<close>
  axis of the result is the members' \<open>reference_time\<close> coordinates one after the other,
  in the order of the list; the \<open>time\<close> index is the union of the members' (the
  library's outer join, which sorts it).
\<close>

definition concat_reference_time :: "dataset list \<Rightarrow> error + dataset" where
  "concat_reference_time objs =
     (case objs of
        [] \<Rightarrow> Inl (ValueError ''must supply at least one object to concatenate'')
      | d # ds \<Rightarrow>
          if list_all (\<lambda>x. feature_id x = feature_id d) ds
          then Inr (d\<lparr>reference_time := concat (map reference_time (d # ds)),
                      time := sort (remdups (concat (map time (d # ds))))\<rparr>)
          else Inl ConcatenationMismatch)"

subsection \<open>The grouping pass\<close>

text \<open>
  \<^verbatim>\<open>ds_dict\<close> is a Python dict: it keeps its keys in the order of their first insertion,
  so it is an association list. A key already there keeps its place and gets the dataset
  appended to its list; a new key goes to the end.
\<close>

type_synonym ds_dict = "(instant \<times> dataset list) list"

text \<open>
  \<^verbatim>\<open>ds.coords['reference_time'].values = np.array([np.datetime64(...)])\<close>, the
  assignment of line 40. The library refuses it for a dimension coordinate (an
  \<^verbatim>\<open>IndexVariable\<close>, whose \<^verbatim>\<open>values\<close> cannot be assigned), and for any other coordinate
  whose shape is not that of the one-element array; otherwise the coordinate holds the
  epoch afterwards.
\<close>

definition dimension_coordinate_error :: error where
  "dimension_coordinate_error =
     ValueError ''Cannot assign to the .values attribute of dimension coordinate a.k.a IndexVariable''"

definition shape_error :: error where
  "shape_error = ValueError ''replacement data must match the shape of the Variable''"

definition assign_epoch :: "dataset \<Rightarrow> error + dataset" where
  "assign_epoch ds =
     (if ''reference_time'' \<in> set (dims ds) then Inl dimension_coordinate_error
      else if length (reference_time ds) \<noteq> 1 then Inl shape_error
      else Inr (ds\<lparr>reference_time := [epoch]\<rparr>))"

text \<open>
  The first half of the loop body: open the file; when \<open>forecast\<close> is false overwrite
  the \<open>reference_time\<close> coordinate with the one-element array of the epoch; read
  \<^verbatim>\<open>ref_time = ds['reference_time'].values[0]\<close>, an \<open>IndexError\<close> on an empty array.
\<close>

definition open_ref_time ::
  "('p \<Rightarrow> chunk_spec option \<Rightarrow> error + dataset) \<Rightarrow> chunk_spec option \<Rightarrow> bool \<Rightarrow> 'p
     \<Rightarrow> error + (instant \<times> dataset)" where
  "open_ref_time xr_open chunks forecast a_file =
     (case xr_open a_file chunks of
        Inl e \<Rightarrow> Inl e
      | Inr ds0 \<Rightarrow>
          (case (if \<not> forecast then assign_epoch ds0 else Inr ds0) of
             Inl e \<Rightarrow> Inl e
           | Inr ds \<Rightarrow>
               (case reference_time ds of
                  [] \<Rightarrow> Inl IndexError
                | ref_time # _ \<Rightarrow> Inr (ref_time, ds))))"

text \<open>The second half: \<^verbatim>\<open>if ref_time in ds_dict: ... append ... else: ... = [ds]\<close>.\<close>

definition ds_dict_add :: "ds_dict \<Rightarrow> instant \<times> dataset \<Rightarrow> ds_dict" where
  "ds_dict_add ds_dict kd =
     (case map_of ds_dict (fst kd) of
        Some members \<Rightarrow> AList.update (fst kd) (members @ [snd kd]) ds_dict
      | None \<Rightarrow> ds_dict @ [(fst kd, [snd kd])])"

fun group_files ::
  "('p \<Rightarrow> chunk_spec option \<Rightarrow> error + dataset) \<Rightarrow> chunk_spec option \<Rightarrow> bool \<Rightarrow> ds_dict
     \<Rightarrow> 'p list \<Rightarrow> error + ds_dict" where
  "group_files xr_open chunks forecast ds_dict [] = Inr ds_dict"
| "group_files xr_open chunks forecast ds_dict (a_file # paths) =
     (case open_ref_time xr_open chunks forecast a_file of
        Inl e \<Rightarrow> Inl e
      | Inr kd \<Rightarrow> group_files xr_open chunks forecast (ds_dict_add ds_dict kd) paths)"

subsection \<open>The two concatenation passes\<close>

text \<open>\<^verbatim>\<open>for key in ds_dict.keys(): forecast_list.append(xr.concat(ds_dict[key], ...))\<close>\<close>

fun concat_groups :: "ds_dict \<Rightarrow> error + dataset list" where
  "concat_groups [] = Inr []"
| "concat_groups ((key, members) # rest) =
     (case concat_time members of
        Inl e \<Rightarrow> Inl e
      | Inr fc \<Rightarrow>
          (case concat_groups rest of
             Inl e \<Rightarrow> Inl e
           | Inr forecast_list \<Rightarrow> Inr (fc # forecast_list)))"

definition open_nwmdataset ::
  "('p \<Rightarrow> chunk_spec option \<Rightarrow> error + dataset) \<Rightarrow> 'p list \<Rightarrow> chunk_spec option \<Rightarrow> bool
     \<Rightarrow> error + dataset" where
  "open_nwmdataset xr_open paths chunks forecast =
     (case group_files xr_open chunks forecast [] paths of
        Inl e \<Rightarrow> Inl e
      | Inr ds_dict \<Rightarrow>
          (case concat_groups ds_dict of
             Inl e \<Rightarrow> Inl e
           | Inr forecast_list \<Rightarrow>
               (case concat_reference_time forecast_list of
                  Inl e \<Rightarrow> Inl e
                | Inr nwm_dataset \<Rightarrow>
                    Inr (if chunks \<noteq> None then nwm_dataset\<lparr>chunking := chunks\<rparr>
                         else nwm_dataset))))"

text \<open>
  What the claims speak of: the order in which distinct keys are first met in a list, and
  the members of a group (none for a key that is absent).
\<close>

definition first_seen :: "'a list \<Rightarrow> 'a list" where
  "first_seen xs = fold (\<lambda>x acc. if x \<in> set acc then acc else acc @ [x]) xs []"

definition members_of :: "ds_dict \<Rightarrow> instant \<Rightarrow> dataset list" where
  "members_of ds_dict key = (case map_of ds_dict key of None \<Rightarrow> [] | Some members \<Rightarrow> members)"

text \<open>
  For the proofs: the loop's first half run over the whole list (the first failure wins,
  as in the loop), and the invariant that every group is non-empty and each of its
  members carries the group's key as its one \<open>reference_time\<close> value.
\<close>

fun open_all ::
  "('p \<Rightarrow> chunk_spec option \<Rightarrow> error + dataset) \<Rightarrow> chunk_spec option \<Rightarrow> bool \<Rightarrow> 'p list
     \<Rightarrow> error + (instant \<times> dataset) list" where
  "open_all xr c f [] = Inr []"
| "open_all xr c f (p # ps) =
     (case open_ref_time xr c f p of
        Inl e \<Rightarrow> Inl e
      | Inr kd \<Rightarrow> (case open_all xr c f ps of Inl e \<Rightarrow> Inl e | Inr kds \<Rightarrow> Inr (kd # kds)))"

definition group_ok :: "instant \<times> dataset list \<Rightarrow> bool" where
  "group_ok g = (snd g \<noteq> [] \<and> list_all (\<lambda>m. reference_time m = [fst g]) (snd g))"

definition single_ref :: "ds_dict \<Rightarrow> bool" where
  "single_ref d = list_all group_ok d"

text \<open>
  Collaborators for the examples. The dimensions of a National Water Model output file:
  \<open>reference_time\<close> is one of them, so the coordinate of that name is a dimension
  coordinate. \<open>demo_open\<close> opens such files: file \<open>0\<close> does not open; file \<open>p\<close> has the
  reference time \<open>p mod 3\<close> hours and one time step. \<open>plain_open\<close> opens files that carry
  \<open>reference_time\<close> as a coordinate along \<open>time\<close>, which is no dimension coordinate.
\<close>

definition nwm_dims :: "string list" where
  "nwm_dims = [''time'', ''reference_time'', ''feature_id'']"

definition demo_open :: "nat \<Rightarrow> chunk_spec option \<Rightarrow> error + dataset" where
  "demo_open p chunks =
     (if p = 0 then Inl OpenFailure
      else Inr \<lparr>reference_time = [int (p mod 3) * 3600], time = [int p],
                feature_id = [101, 102], chunking = chunks, dims = nwm_dims\<rparr>)"

definition plain_open :: "nat \<Rightarrow> chunk_spec option \<Rightarrow> error + dataset" where
  "plain_open p chunks =
     (if p = 0 then Inl OpenFailure
      else Inr \<lparr>reference_time = [int (p mod 3) * 3600], time = [int p],
                feature_id = [101, 102], chunking = chunks, dims = [''time'', ''feature_id'']\<rparr>)"

section \<open>The forcing relocator: \<^verbatim>\<open>nwm_forcing_to_ldasin\<close>\<close>

subsection \<open>Strings\<close>

text \<open>\<^verbatim>\<open>sub in s\<close>\<close>

fun contains :: "string \<Rightarrow> string \<Rightarrow> bool" where
  "contains sub [] = (sub = [])"
| "contains sub (c # cs) = (prefix sub (c # cs) \<or> contains sub cs)"

text \<open>
  \<^verbatim>\<open>s.split(sep)\<close> for a separator that is not empty: the pieces between the occurrences
  of \<open>sep\<close>, found from the left. \<open>cur\<close> is the piece being read.
\<close>

function split_from :: "string \<Rightarrow> string \<Rightarrow> string \<Rightarrow> string list" where
  "split_from sep cur [] = [cur]"
| "split_from sep cur (c # cs) =
     (if sep \<noteq> [] \<and> prefix sep (c # cs)
      then cur # split_from sep [] (drop (length sep) (c # cs))
      else split_from sep (cur @ [c]) cs)"
  by pat_completeness auto

termination
  by (relation "measure (\<lambda>(sep, cur, s). length s)") auto

definition str_split :: "string \<Rightarrow> string \<Rightarrow> string list" where
  "str_split sep s = split_from sep [] s"

text \<open>\<^verbatim>\<open>xs[i]\<close> for an index that is not negative.\<close>

definition item :: "'a list \<Rightarrow> nat \<Rightarrow> error + 'a" where
  "item xs i = (if i < length xs then Inr (xs ! i) else Inl IndexError)"

definition is_digit :: "char \<Rightarrow> bool" where
  "is_digit c = (c \<in> set ''0123456789'')"

definition digit_value :: "char \<Rightarrow> nat" where
  "digit_value c = of_char c - 48"

definition digits_value :: "string \<Rightarrow> nat" where
  "digits_value ds = foldl (\<lambda>n c. 10 * n + digit_value c) 0 ds"

text \<open>\<^verbatim>\<open>int(re.findall(r'\d+', s)[0])\<close>: the first run of digits, an \<open>IndexError\<close> when
  there is none.\<close>

definition first_int :: "string \<Rightarrow> error + int" where
  "first_int s =
     (case takeWhile is_digit (dropWhile (\<lambda>c. \<not> is_digit c) s) of
        [] \<Rightarrow> Inl IndexError
      | d # ds \<Rightarrow> Inr (int (digits_value (d # ds))))"

subsection \<open>Dates\<close>

text \<open>
  A \<^verbatim>\<open>datetime.datetime\<close> on the hour: the function parses a day and adds whole hours,
  so minute and second stay zero. The calendar is the proleptic Gregorian one of the
  library, with its day numbers (1 is 0001-01-01, 3652059 is 9999-12-31).
\<close>

record datetime =
  year :: int
  month :: int
  day :: int
  hour :: int

definition is_leap :: "int \<Rightarrow> bool" where
  "is_leap y = (y mod 4 = 0 \<and> (y mod 100 \<noteq> 0 \<or> y mod 400 = 0))"

definition days_in_month_tab :: "int list" where
  "days_in_month_tab = [-1, 31, 28, 31, 30, 31, 30, 31, 31, 30, 31, 30, 31]"

definition days_before_month_tab :: "int list" where
  "days_before_month_tab = [-1, 0, 31, 59, 90, 120, 151, 181, 212, 243, 273, 304, 334]"

definition days_in_month :: "int \<Rightarrow> int \<Rightarrow> int" where
  "days_in_month y m = (if m = 2 \<and> is_leap y then 29 else days_in_month_tab ! nat m)"

definition days_before_year :: "int \<Rightarrow> int" where
  "days_before_year y = (y - 1) * 365 + (y - 1) div 4 - (y - 1) div 100 + (y - 1) div 400"

definition days_before_month :: "int \<Rightarrow> int \<Rightarrow> int" where
  "days_before_month y m = days_before_month_tab ! nat m + (if m > 2 \<and> is_leap y then 1 else 0)"

definition ymd2ord :: "int \<Rightarrow> int \<Rightarrow> int \<Rightarrow> int" where
  "ymd2ord y m d = days_before_year y + days_before_month y m + d"

definition ord2ymd :: "int \<Rightarrow> int \<times> int \<times> int" where
  "ord2ymd ordinal =
     (let n = ordinal - 1;
          n400 = n div 146097; n = n mod 146097;
          n100 = n div 36524; n = n mod 36524;
          n4 = n div 1461; n = n mod 1461;
          n1 = n div 365; n = n mod 365;
          y = n400 * 400 + 1 + n100 * 100 + n4 * 4 + n1
      in if n1 = 4 \<or> n100 = 4 then (y - 1, 12, 31)
         else
           let leapyear = (n1 = 3 \<and> (n4 \<noteq> 24 \<or> n100 = 3));
               m = (n + 50) div 32;
               preceding = days_before_month_tab ! nat m + (if m > 2 \<and> leapyear then 1 else 0)
           in if preceding > n
              then (y, m - 1,
                    n - (preceding - (days_in_month_tab ! nat (m - 1)
                                      + (if m - 1 = 2 \<and> leapyear then 1 else 0))) + 1)
              else (y, m, n - preceding + 1))"

definition max_ordinal :: int where
  "max_ordinal = 3652059"

text \<open>
  \<^verbatim>\<open>dt + datetime.timedelta(hours=k)\<close>: an \<open>OverflowError\<close> when the result leaves the
  years 1 to 9999.
\<close>

definition add_hours :: "datetime \<Rightarrow> int \<Rightarrow> error + datetime" where
  "add_hours dt k =
     (let total = ymd2ord (year dt) (month dt) (day dt) * 24 + hour dt + k;
          days = total div 24
      in if 0 < days \<and> days \<le> max_ordinal
         then (case ord2ymd days of
                 (y, m, d) \<Rightarrow> Inr \<lparr>year = y, month = m, day = d, hour = total mod 24\<rparr>)
         else Inl OverflowError)"

text \<open>Decimal digits, zero-padded to a width, as \<^verbatim>\<open>strftime\<close> writes its fields.\<close>

definition digit_char :: "int \<Rightarrow> char" where
  "digit_char n = ''0123456789'' ! nat (n mod 10)"

definition pad2 :: "int \<Rightarrow> string" where
  "pad2 n = [digit_char (n div 10), digit_char n]"

definition pad4 :: "int \<Rightarrow> string" where
  "pad4 n = [digit_char (n div 1000), digit_char (n div 100), digit_char (n div 10), digit_char n]"

text \<open>
  \<^verbatim>\<open>dt.strftime(fmt)\<close> for the directives the function uses (\<^verbatim>\<open>%Y %m %d %H\<close>); every
  other character of the format is copied. The year is written with four digits (what
  the C library does with a year below 1000 differs between systems).
\<close>

fun strftime :: "datetime \<Rightarrow> string \<Rightarrow> string" where
  "strftime dt [] = []"
| "strftime dt [c] = [c]"
| "strftime dt (c # d # fmt) =
     (if c = CHR ''%'' \<and> d = CHR ''Y'' then pad4 (year dt) @ strftime dt fmt
      else if c = CHR ''%'' \<and> d = CHR ''m'' then pad2 (month dt) @ strftime dt fmt
      else if c = CHR ''%'' \<and> d = CHR ''d'' then pad2 (day dt) @ strftime dt fmt
      else if c = CHR ''%'' \<and> d = CHR ''H'' then pad2 (hour dt) @ strftime dt fmt
      else c # strftime dt (d # fmt))"

declare strftime.simps [simp del]

text \<open>
  \<^verbatim>\<open>datetime.datetime.strptime(name, 'nwm.%Y%m%d')\<close>. The library turns the format into
  the regular expression \<^verbatim>\<open>nwm\.(\d\d\d\d)(1[0-2]|0[1-9]|[1-9])(3[01]|[12]\d|0[1-9]|[1-9]| [1-9])\<close>,
  matched ignoring case from the start of the name; what the match leaves over, a year 0
  and a day the month does not have are each a \<open>ValueError\<close>. The alternatives of a group
  are tried in their order.
\<close>

definition match_month :: "string \<Rightarrow> (int \<times> string) list" where
  "match_month s =
     (case s of
        [] \<Rightarrow> []
      | a # r \<Rightarrow>
          (case r of
             [] \<Rightarrow> []
           | b # r' \<Rightarrow>
               (if a = CHR ''1'' \<and> b \<in> set ''012'' then [(10 + int (digit_value b), r')] else [])
               @ (if a = CHR ''0'' \<and> b \<in> set ''123456789'' then [(int (digit_value b), r')] else []))
          @ (if a \<in> set ''123456789'' then [(int (digit_value a), r)] else []))"

definition match_day :: "string \<Rightarrow> (int \<times> string) list" where
  "match_day s =
     (case s of
        [] \<Rightarrow> []
      | a # r \<Rightarrow>
          (case r of
             [] \<Rightarrow> []
           | b # r' \<Rightarrow>
               (if a = CHR ''3'' \<and> b \<in> set ''01'' then [(30 + int (digit_value b), r')] else [])
               @ (if a \<in> set ''12'' \<and> is_digit b
                  then [(10 * int (digit_value a) + int (digit_value b), r')] else [])
               @ (if a = CHR ''0'' \<and> b \<in> set ''123456789'' then [(int (digit_value b), r')] else []))
          @ (if a \<in> set ''123456789'' then [(int (digit_value a), r)] else [])
          @ (case r of
               [] \<Rightarrow> []
             | b # r' \<Rightarrow>
                 if a = CHR '' '' \<and> b \<in> set ''123456789'' then [(int (digit_value b), r')] else []))"

definition lower_nwm :: "char \<Rightarrow> char" where
  "lower_nwm c =
     (if c = CHR ''N'' then CHR ''n'' else if c = CHR ''W'' then CHR ''w''
      else if c = CHR ''M'' then CHR ''m'' else c)"

definition strptime_nwm :: "string \<Rightarrow> error + datetime" where
  "strptime_nwm data_string =
     (let no_match = Inl (ValueError ''time data does not match format nwm.%Y%m%d'');
          ys = take 4 (drop 4 data_string)
      in if map lower_nwm (take 4 data_string) \<noteq> ''nwm.'' \<or> length ys \<noteq> 4
            \<or> \<not> list_all is_digit ys
         then no_match
         else
           (case concat (map (\<lambda>(m, r). map (\<lambda>(d, r'). (m, d, r')) (match_day r))
                          (match_month (drop 8 data_string))) of
              [] \<Rightarrow> no_match
            | (m, d, rest) # _ \<Rightarrow>
                let y = int (digits_value ys)
                in if rest \<noteq> [] then Inl (ValueError ''unconverted data remains'')
                   else if y = 0 then Inl (ValueError ''year 0 is out of range'')
                   else if d > days_in_month y m
                   then Inl (ValueError ''day is out of range for month'')
                   else Inr \<lparr>year = y, month = m, day = d, hour = 0\<rparr>))"

subsection \<open>The file system\<close>

text \<open>
  A path is the list of its components from the root; \<^verbatim>\<open>p / name\<close> is \<open>p @ [name]\<close> and
  \<^verbatim>\<open>p.name\<close> is the last component. The file system lists its entries in the order in
  which a directory scan returns them (no order is promised by the system, so any list is
  a file system). An entry is a directory, a regular file with its content, or a symbolic
  link with its target. A path names the entry stored under it; a link is followed where
  it is the entry the path names, up to the 40 links the system follows, and a scan of a
  linked directory lists the entries of the directory the link leads to. An entry is
  stored under the path it was created with.
\<close>

type_synonym path = "string list"

datatype node = Dir | File string | Link path

type_synonym fs = "(path \<times> node) list"

definition path_name :: "path \<Rightarrow> string" where
  "path_name p = (if p = [] then [] else last p)"

definition lookup :: "fs \<Rightarrow> path \<Rightarrow> node option" where
  "lookup fs p = (if p = [] then Some Dir else map_of fs p)"

fun resolve :: "fs \<Rightarrow> nat \<Rightarrow> path \<Rightarrow> path option" where
  "resolve fs n p =
     (case lookup fs p of
        Some (Link target) \<Rightarrow> (case n of 0 \<Rightarrow> None | Suc m \<Rightarrow> resolve fs m target)
      | _ \<Rightarrow> Some p)"

declare resolve.simps [simp del]

text \<open>\<^verbatim>\<open>os.stat\<close>: the entry a path leads to through links, with the path it is stored under.\<close>

definition stat :: "fs \<Rightarrow> path \<Rightarrow> (path \<times> node) option" where
  "stat fs p =
     (case resolve fs 40 p of
        None \<Rightarrow> None
      | Some q \<Rightarrow> (case lookup fs q of None \<Rightarrow> None | Some nd \<Rightarrow> Some (q, nd)))"

definition path_exists :: "fs \<Rightarrow> path \<Rightarrow> bool" where
  "path_exists fs p = (stat fs p \<noteq> None)"

definition is_dir :: "fs \<Rightarrow> path \<Rightarrow> bool" where
  "is_dir fs p = (case stat fs p of Some (q, Dir) \<Rightarrow> True | _ \<Rightarrow> False)"

definition enoent :: string where
  "enoent = ''[Errno 2] No such file or directory''"

text \<open>What creating an entry asks of the directory it goes into.\<close>

definition check_parent :: "fs \<Rightarrow> path \<Rightarrow> error option" where
  "check_parent fs p =
     (case stat fs (butlast p) of
        None \<Rightarrow> Some (FileNotFoundError enoent)
      | Some (q, Dir) \<Rightarrow> None
      | Some (q, _) \<Rightarrow> Some NotADirectoryError)"

text \<open>\<^verbatim>\<open>os.mkdir(p)\<close>\<close>

definition os_mkdir :: "fs \<Rightarrow> path \<Rightarrow> error + fs" where
  "os_mkdir fs p =
     (if lookup fs p \<noteq> None then Inl FileExistsError
      else (case check_parent fs p of Some e \<Rightarrow> Inl e | None \<Rightarrow> Inr (fs @ [(p, Dir)])))"

text \<open>
  \<^verbatim>\<open>p.mkdir(mode=0o777, parents=False, exist_ok=True)\<close>: a missing parent is raised
  again; any other failure is swallowed when \<open>p\<close> is a directory already.
\<close>

definition path_mkdir :: "fs \<Rightarrow> path \<Rightarrow> error + fs" where
  "path_mkdir fs p =
     (case os_mkdir fs p of
        Inr fs' \<Rightarrow> Inr fs'
      | Inl (FileNotFoundError m) \<Rightarrow> Inl (FileNotFoundError m)
      | Inl e \<Rightarrow> if is_dir fs p then Inr fs else Inl e)"

text \<open>\<^verbatim>\<open>p.symlink_to(target)\<close>\<close>

definition symlink_to :: "fs \<Rightarrow> path \<Rightarrow> path \<Rightarrow> error + fs" where
  "symlink_to fs p target =
     (if lookup fs p \<noteq> None then Inl FileExistsError
      else (case check_parent fs p of Some e \<Rightarrow> Inl e | None \<Rightarrow> Inr (fs @ [(p, Link target)])))"

text \<open>
  \<^verbatim>\<open>shutil.copy(src, dst)\<close>: into \<open>dst\<close> when that is a directory; the same file on both
  sides is a \<open>SameFileError\<close>; the source is opened for reading, then the destination for
  writing, both through links; an existing regular file is overwritten.
\<close>

definition open_read :: "fs \<Rightarrow> path \<Rightarrow> error + string" where
  "open_read fs p =
     (case stat fs p of
        None \<Rightarrow> Inl (FileNotFoundError enoent)
      | Some (q, File content) \<Rightarrow> Inr content
      | Some (q, _) \<Rightarrow> Inl IsADirectoryError)"

definition open_write :: "fs \<Rightarrow> path \<Rightarrow> string \<Rightarrow> error + fs" where
  "open_write fs p content =
     (case resolve fs 40 p of
        None \<Rightarrow> Inl TooManyLinks
      | Some q \<Rightarrow>
          (case lookup fs q of
             Some (File old) \<Rightarrow> Inr (AList.update q (File content) fs)
           | Some _ \<Rightarrow> Inl IsADirectoryError
           | None \<Rightarrow>
               (case check_parent fs q of
                  Some e \<Rightarrow> Inl e
                | None \<Rightarrow> Inr (fs @ [(q, File content)]))))"

definition samefile :: "fs \<Rightarrow> path \<Rightarrow> path \<Rightarrow> bool" where
  "samefile fs a b =
     (case stat fs a of
        None \<Rightarrow> False
      | Some (qa, na) \<Rightarrow> (case stat fs b of None \<Rightarrow> False | Some (qb, nb) \<Rightarrow> qa = qb))"

definition shutil_copy :: "fs \<Rightarrow> path \<Rightarrow> path \<Rightarrow> error + fs" where
  "shutil_copy fs src dst =
     (let dst' = (if is_dir fs dst then dst @ [path_name src] else dst)
      in if samefile fs src dst' then Inl SameFileError
         else (case open_read fs src of
                 Inl e \<Rightarrow> Inl e
               | Inr content \<Rightarrow> open_write fs dst' content))"

subsection \<open>Globbing\<close>

text \<open>
  \<^verbatim>\<open>Path.glob(pattern)\<close> for a pattern of one component, which is what the categories
  of the function's documentation give. An empty pattern is refused, and so is one that
  has \<^verbatim>\<open>**\<close> beside other characters. Of a path that leads to no directory nothing is
  selected. A pattern with none of \<^verbatim>\<open>* ? [\<close> selects the child of that name when it
  exists; \<^verbatim>\<open>**\<close> alone selects the directory and the directories below it that are no
  links; any other pattern is matched against the names of the scanned entries as
  \<^verbatim>\<open>fnmatch\<close> does: \<^verbatim>\<open>*\<close> is any string, \<^verbatim>\<open>?\<close> any character, \<^verbatim>\<open>[...]\<close> a class of
  characters and ranges that a leading \<^verbatim>\<open>!\<close> negates, and a \<^verbatim>\<open>[\<close> that no \<^verbatim>\<open>]\<close> closes is
  itself. What is selected is named as a child of the path that was globbed, also where
  that path is a link to the directory scanned.
\<close>

datatype gtok = Lit char | AnyString | AnyChar | CharClass bool "(char \<times> char) list"

definition class_end :: "string \<Rightarrow> (string \<times> string) option" where
  "class_end ps =
     (let neg = takeWhile (\<lambda>c. c = CHR ''!'') (take 1 ps);
          a = drop (length neg) ps;
          first = takeWhile (\<lambda>c. c = CHR '']'') (take 1 a);
          b = drop (length first) a;
          body = takeWhile (\<lambda>c. c \<noteq> CHR '']'') b;
          after = dropWhile (\<lambda>c. c \<noteq> CHR '']'') b
      in if after = [] then None else Some (neg @ first @ body, tl after))"

fun class_items :: "string \<Rightarrow> (char \<times> char) list" where
  "class_items [] = []"
| "class_items [a] = [(a, a)]"
| "class_items [a, b] = [(a, a), (b, b)]"
| "class_items (a # b # c # r) =
     (if b = CHR ''-'' then (a, c) # class_items r else (a, a) # class_items (b # c # r))"

definition char_class :: "string \<Rightarrow> gtok" where
  "char_class stuff =
     (if take 1 stuff = ''!'' then CharClass True (class_items (drop 1 stuff))
      else CharClass False (class_items stuff))"

text \<open>\<open>skip\<close> counts the characters of a class still to pass over.\<close>

fun glob_tokens_from :: "nat \<Rightarrow> string \<Rightarrow> gtok list" where
  "glob_tokens_from skip [] = []"
| "glob_tokens_from skip (c # ps) =
     (if skip > 0 then glob_tokens_from (skip - 1) ps
      else if c = CHR ''*'' then AnyString # glob_tokens_from 0 ps
      else if c = CHR ''?'' then AnyChar # glob_tokens_from 0 ps
      else if c = CHR ''[''
      then (case class_end ps of
              None \<Rightarrow> Lit c # glob_tokens_from 0 ps
            | Some (stuff, rest) \<Rightarrow> char_class stuff # glob_tokens_from (length stuff + 1) ps)
      else Lit c # glob_tokens_from 0 ps)"

fun match_tokens :: "gtok list \<Rightarrow> string \<Rightarrow> bool" where
  "match_tokens [] s = (s = [])"
| "match_tokens (AnyString # ts) [] = match_tokens ts []"
| "match_tokens (AnyString # ts) (x # r) =
     (match_tokens ts (x # r) \<or> match_tokens (AnyString # ts) r)"
| "match_tokens (t # ts) [] = False"
| "match_tokens (AnyChar # ts) (x # r) = match_tokens ts r"
| "match_tokens (Lit c # ts) (x # r) = (x = c \<and> match_tokens ts r)"
| "match_tokens (CharClass neg items # ts) (x # r) =
     ((list_ex (\<lambda>(lo, hi). lo \<le> x \<and> x \<le> hi) items \<noteq> neg) \<and> match_tokens ts r)"

definition fnmatch :: "string \<Rightarrow> string \<Rightarrow> bool" where
  "fnmatch nm pat = match_tokens (glob_tokens_from 0 pat) nm"

definition is_wildcard_pattern :: "string \<Rightarrow> bool" where
  "is_wildcard_pattern pat = (CHR ''*'' \<in> set pat \<or> CHR ''?'' \<in> set pat \<or> CHR ''['' \<in> set pat)"

definition children :: "fs \<Rightarrow> path \<Rightarrow> path list" where
  "children fs d = filter (\<lambda>p. p \<noteq> [] \<and> butlast p = d) (map fst fs)"

text \<open>The walk of \<^verbatim>\<open>**\<close>: a directory, then each child directory that is no link with what is below it.\<close>

fun walk :: "fs \<Rightarrow> nat \<Rightarrow> path \<Rightarrow> path list" where
  "walk fs 0 q = [q]"
| "walk fs (Suc n) q =
     q # concat (map (walk fs n) (filter (\<lambda>p. lookup fs p = Some Dir) (children fs q)))"

definition unacceptable_pattern :: error where
  "unacceptable_pattern = ValueError ''Unacceptable pattern''"

definition invalid_pattern :: error where
  "invalid_pattern = ValueError ''Invalid pattern: ** can only be an entire path component''"

definition glob :: "fs \<Rightarrow> path \<Rightarrow> string \<Rightarrow> error + path list" where
  "glob fs d pat =
     (if pat = [] then Inl unacceptable_pattern
      else if pat \<noteq> ''**'' \<and> contains ''**'' pat then Inl invalid_pattern
      else (case stat fs d of
              Some (q, Dir) \<Rightarrow>
                if pat = ''**''
                then Inr (map (\<lambda>p. d @ drop (length q) p) (walk fs (length fs) q))
                else if is_wildcard_pattern pat
                then Inr (map (\<lambda>p. d @ [path_name p])
                            (filter (\<lambda>p. fnmatch (path_name p) pat) (children fs q)))
                else if path_exists fs (q @ [pat]) then Inr [d @ [pat]] else Inr []
            | _ \<Rightarrow> Inr []))"

subsection \<open>The relocator\<close>

text \<open>
  \<^verbatim>\<open>if 'forcing_' in range: range = range.split('forcing_')[1]\<close>. The split of a string
  that contains the separator has two pieces at least.
\<close>

definition normalize_range :: "string \<Rightarrow> string" where
  "normalize_range rng =
     (if contains ''forcing_'' rng
      then (case str_split ''forcing_'' rng of a # b # r \<Rightarrow> b | _ \<Rightarrow> rng)
      else rng)"

text \<open>The categories the function's documentation lists for \<^verbatim>\<open>range\<close>.\<close>

definition range_categories :: "string list" where
  "range_categories = [''analysis_assim'', ''analysis_assim_extend'', ''analysis_assim_hawaii'',
     ''medium_range'', ''short_range'', ''short_range_hawaii'']"

text \<open>\<^verbatim>\<open>re_range = range; if '_hawaii' in range: re_range = range.split('_hawaii')[0]\<close>\<close>

definition re_range :: "string \<Rightarrow> string" where
  "re_range rng =
     (if contains ''_hawaii'' rng
      then (case str_split ''_hawaii'' rng of a # r \<Rightarrow> a | [] \<Rightarrow> rng)
      else rng)"

text \<open>\<^verbatim>\<open>'forcing_' + range\<close> and \<^verbatim>\<open>'*' + re_range + '.forcing.*'\<close>\<close>

definition member_pattern :: "string \<Rightarrow> string" where
  "member_pattern rng = ''forcing_'' @ rng"

definition file_pattern :: "string \<Rightarrow> string" where
  "file_pattern rng = ''*'' @ re_range rng @ ''.forcing.*''"

definition unsupported_forc_type :: error where
  "unsupported_forc_type = ValueError ''Only forc_type 1 and 2 are supported''"

definition ldasin_format :: "int \<Rightarrow> error + string" where
  "ldasin_format forc_type =
     (if forc_type = 1 then Inr ''%Y%m%d%H.LDASIN_DOMAIN1''
      else if forc_type = 2 then Inr ''%Y%m%d%H00.LDASIN_DOMAIN1''
      else Inl unsupported_forc_type)"

text \<open>\<^verbatim>\<open>if copy: shutil.copy(forcing_file, ldasin_file_name) else: ldasin_file_name.symlink_to(forcing_file)\<close>\<close>

definition materialize :: "fs \<Rightarrow> bool \<Rightarrow> path \<Rightarrow> path \<Rightarrow> error + fs" where
  "materialize fs copy forcing_file ldasin_file_name =
     (if copy then shutil_copy fs forcing_file ldasin_file_name
      else symlink_to fs ldasin_file_name forcing_file)"

text \<open>
  The body of the loop over the forcing files, in the order of the source. A failure
  leaves the file system as it is at that moment: the second component of \<open>Inl\<close>.
\<close>

definition relocate_file ::
  "fs \<Rightarrow> path \<Rightarrow> string \<Rightarrow> bool \<Rightarrow> int \<Rightarrow> datetime \<Rightarrow> path \<Rightarrow> (error \<times> fs) + fs" where
  "relocate_file fs ldasin_dir rng copy forc_type the_day forcing_file =
     (let name_split = str_split ''.'' (path_name forcing_file) in
      case item name_split 1 of Inl e \<Rightarrow> Inl (e, fs) | Inr field1 \<Rightarrow>
      (case first_int field1 of Inl e \<Rightarrow> Inl (e, fs) | Inr init_hour \<Rightarrow>
      (case add_hours the_day init_hour of Inl e \<Rightarrow> Inl (e, fs) | Inr init_time \<Rightarrow>
      (let init_time_dir = ldasin_dir @ [strftime init_time ''%Y%m%d%H''] in
       case path_mkdir fs init_time_dir of Inl e \<Rightarrow> Inl (e, fs) | Inr fs1 \<Rightarrow>
      (case item name_split 4 of Inl e \<Rightarrow> Inl (e, fs1) | Inr field4 \<Rightarrow>
      (case first_int field4 of Inl e \<Rightarrow> Inl (e, fs1) | Inr cast_hour \<Rightarrow>
      (let model_time = (if contains ''analysis_assim'' rng then init_hour - cast_hour
                         else init_hour + cast_hour) in
       case add_hours the_day model_time of Inl e \<Rightarrow> Inl (e, fs1) | Inr ldasin_time \<Rightarrow>
      (case ldasin_format forc_type of Inl e \<Rightarrow> Inl (e, fs1) | Inr fmt \<Rightarrow>
      (let ldasin_file_name = init_time_dir @ [strftime ldasin_time fmt] in
       case materialize fs1 copy forcing_file ldasin_file_name of
         Inl e \<Rightarrow> Inl (e, fs1)
       | Inr fs2 \<Rightarrow> Inr fs2)))))))))"

fun files_loop ::
  "fs \<Rightarrow> path \<Rightarrow> string \<Rightarrow> bool \<Rightarrow> int \<Rightarrow> datetime \<Rightarrow> path list \<Rightarrow> (error \<times> fs) + fs" where
  "files_loop fs ldasin_dir rng copy forc_type the_day [] = Inr fs"
| "files_loop fs ldasin_dir rng copy forc_type the_day (forcing_file # forcing_files) =
     (case relocate_file fs ldasin_dir rng copy forc_type the_day forcing_file of
        Inl x \<Rightarrow> Inl x
      | Inr fs' \<Rightarrow> files_loop fs' ldasin_dir rng copy forc_type the_day forcing_files)"

fun members_loop ::
  "fs \<Rightarrow> path \<Rightarrow> string \<Rightarrow> bool \<Rightarrow> int \<Rightarrow> datetime \<Rightarrow> path list \<Rightarrow> (error \<times> fs) + fs" where
  "members_loop fs ldasin_dir rng copy forc_type the_day [] = Inr fs"
| "members_loop fs ldasin_dir rng copy forc_type the_day (member_dir # member_dirs) =
     (if \<not> is_dir fs member_dir
      then members_loop fs ldasin_dir rng copy forc_type the_day member_dirs
      else (case glob fs member_dir (file_pattern rng) of
              Inl e \<Rightarrow> Inl (e, fs)
            | Inr forcing_files \<Rightarrow>
                (case files_loop fs ldasin_dir rng copy forc_type the_day forcing_files of
                   Inl x \<Rightarrow> Inl x
                 | Inr fs' \<Rightarrow>
                     members_loop fs' ldasin_dir rng copy forc_type the_day member_dirs)))"

fun days_loop ::
  "fs \<Rightarrow> path \<Rightarrow> string \<Rightarrow> bool \<Rightarrow> int \<Rightarrow> path list \<Rightarrow> (error \<times> fs) + fs" where
  "days_loop fs ldasin_dir rng copy forc_type [] = Inr fs"
| "days_loop fs ldasin_dir rng copy forc_type (daily_dir # daily_dirs) =
     (case strptime_nwm (path_name daily_dir) of
        Inl e \<Rightarrow> Inl (e, fs)
      | Inr the_day \<Rightarrow>
          (case glob fs daily_dir (member_pattern rng) of
             Inl e \<Rightarrow> Inl (e, fs)
           | Inr found \<Rightarrow>
               (case members_loop fs ldasin_dir rng copy forc_type the_day (sort found) of
                  Inl x \<Rightarrow> Inl x
                | Inr fs' \<Rightarrow> days_loop fs' ldasin_dir rng copy forc_type daily_dirs)))"

text \<open>
  The process: its file system, its working directory (the function changes it when the
  source is one directory) and the warnings it has given.
\<close>

record world =
  files :: fs
  cwd :: path
  warnings :: "string list"

text \<open>The source argument: one directory of daily directories, or a list of daily directories.\<close>

datatype source = SingleDir path | DirList "path list"

definition source_dirs_missing :: error where
  "source_dirs_missing =
     FileNotFoundError ''Some requested daily nwm forcing source dirs do not exist''"

definition source_dir_missing :: error where
  "source_dir_missing = FileNotFoundError ''The nwm_forcing_dir does not exist, exiting.''"

definition no_daily_dirs :: string where
  "no_daily_dirs = ''No daily nwm.YYYYMMDD directores found in the supplied path, If you passed a daily directory, it must be conatined in a list.''"

text \<open>Everything before the loops: the destination root and the daily directories.\<close>

definition prepare :: "world \<Rightarrow> source \<Rightarrow> path \<Rightarrow> (error \<times> world) + (world \<times> path list)" where
  "prepare w nwm_forcing_dir ldasin_dir =
     (case (if \<not> path_exists (files w) ldasin_dir then os_mkdir (files w) ldasin_dir
            else Inr (files w)) of
        Inl e \<Rightarrow> Inl (e, w)
      | Inr fs1 \<Rightarrow>
          (let w1 = w\<lparr>files := fs1\<rparr> in
           case nwm_forcing_dir of
             DirList dds \<Rightarrow>
               if \<not> list_all (path_exists fs1) dds then Inl (source_dirs_missing, w1)
               else Inr (w1, dds)
           | SingleDir d \<Rightarrow>
               if \<not> path_exists fs1 d then Inl (source_dir_missing, w1)
               else if \<not> is_dir fs1 d then Inl (NotADirectoryError, w1)
               else (case glob fs1 d ''nwm.*[0-9]'' of
                       Inl e \<Rightarrow> Inl (e, w1\<lparr>cwd := d\<rparr>)
                     | Inr found \<Rightarrow>
                         (let daily_dirs = sort found
                          in Inr (w1\<lparr>cwd := d,
                                      warnings := warnings w1 @
                                        (if length daily_dirs = 0 then [no_daily_dirs] else [])\<rparr>,
                                  daily_dirs)))))"

definition nwm_forcing_to_ldasin ::
  "world \<Rightarrow> source \<Rightarrow> path \<Rightarrow> string \<Rightarrow> bool \<Rightarrow> int \<Rightarrow> (error \<times> world) + world" where
  "nwm_forcing_to_ldasin w nwm_forcing_dir ldasin_dir rng0 copy forc_type =
     (let rng = normalize_range rng0 in
      case prepare w nwm_forcing_dir ldasin_dir of
        Inl x \<Rightarrow> Inl x
      | Inr (w1, daily_dirs) \<Rightarrow>
          (case days_loop (files w1) ldasin_dir rng copy forc_type daily_dirs of
             Inl (e, fs') \<Rightarrow> Inl (e, w1\<lparr>files := fs'\<rparr>)
           | Inr fs' \<Rightarrow> Inr (w1\<lparr>files := fs'\<rparr>)))"

text \<open>The scenario of the specification: one day, one member directory, one file.\<close>

definition forcing_f003 :: path where
  "forcing_f003 = [''data'', ''nwm.20200601'', ''forcing_medium_range'',
                   ''nwm.t00z.medium_range.forcing.f003.conus.nc'']"

definition scenario_fs :: fs where
  "scenario_fs =
     [([''data''], Dir),
      ([''data'', ''nwm.20200601''], Dir),
      ([''data'', ''nwm.20200601'', ''forcing_medium_range''], Dir),
      (forcing_f003, File ''f003'')]"

definition scenario :: world where
  "scenario = \<lparr>files = scenario_fs, cwd = [], warnings = []\<rparr>"

text \<open>The errors the file operations raise.\<close>

definition os_error :: "error \<Rightarrow> bool" where
  "os_error e = (e \<in> {FileExistsError, FileNotFoundError enoent, NotADirectoryError,
                       IsADirectoryError, SameFileError, TooManyLinks})"


text \<open>The day of the scenario, and a tree of the category \<open>analysis_assim\<close>.\<close>

definition day_20200601 :: datetime where
  "day_20200601 = \<lparr>year = 2020, month = 6, day = 1, hour = 0\<rparr>"

definition assim_tm02 :: path where
  "assim_tm02 = [''data'', ''nwm.20200601'', ''forcing_analysis_assim'',
                 ''nwm.t06z.analysis_assim.forcing.tm02.conus.nc'']"

definition assim_fs :: fs where
  "assim_fs =
     [([''data''], Dir),
      ([''data'', ''nwm.20200601''], Dir),
      ([''data'', ''nwm.20200601'', ''forcing_analysis_assim''], Dir),
      (assim_tm02, File ''tm02'')]"

definition assim_world :: world where
  "assim_world = \<lparr>files = assim_fs, cwd = [], warnings = []\<rparr>"

text \<open>
  A Hawaii tree: the member directory of the category with one file, beside the member
  directory of the category without the suffix.
\<close>

definition hawaii_f001 :: path where
  "hawaii_f001 = [''data'', ''nwm.20200601'', ''forcing_short_range_hawaii'',
                  ''nwm.t00z.short_range.forcing.f001.hawaii.nc'']"

definition hawaii_fs :: fs where
  "hawaii_fs =
     [([''data''], Dir),
      ([''data'', ''nwm.20200601''], Dir),
      ([''data'', ''nwm.20200601'', ''forcing_short_range''], Dir),
      ([''data'', ''nwm.20200601'', ''forcing_short_range'',
        ''nwm.t00z.short_range.forcing.f001.conus.nc''], File ''conus''),
      ([''data'', ''nwm.20200601'', ''forcing_short_range_hawaii''], Dir),
      (hawaii_f001, File ''hawaii'')]"

definition hawaii_world :: world where
  "hawaii_world = \<lparr>files = hawaii_fs, cwd = [], warnings = []\<rparr>"

text \<open>The scenario after a run that links, and after a run that left a file of other content.\<close>

definition scenario_linked :: world where
  "scenario_linked =
     \<lparr>files = scenario_fs @
        [([''out''], Dir), ([''out'', ''2020060100''], Dir),
         ([''out'', ''2020060100'', ''2020060103.LDASIN_DOMAIN1''], Link forcing_f003)],
      cwd = [], warnings = []\<rparr>"

definition stale_fs :: fs where
  "stale_fs = scenario_fs @
     [([''out''], Dir), ([''out'', ''2020060100''], Dir),
      ([''out'', ''2020060100'', ''2020060103.LDASIN_DOMAIN1''], File ''stale'')]"

subsection \<open>Where \<open>forc_type\<close> is checked\<close>


section \<open>Proofs about the assembler\<close>

subsection \<open>The grouping pass as a fold\<close>

lemma group_files_open_all:
  "group_files xr c f d ps =
     (case open_all xr c f ps of Inl e \<Rightarrow> Inl e | Inr kds \<Rightarrow> Inr (foldl ds_dict_add d kds))"
  by (induction ps arbitrary: d) (auto split: sum.splits)

lemma open_all_Inr_iff:
  "open_all xr c f ps = Inr kds \<longleftrightarrow> map (open_ref_time xr c f) ps = map Inr kds"
proof (induction ps arbitrary: kds)
  case Nil
  then show ?case by auto
next
  case (Cons p ps)
  show ?case
  proof (cases "open_ref_time xr c f p")
    case (Inl e)
    then show ?thesis by (cases kds) auto
  next
    case (Inr kd)
    show ?thesis
    proof (cases "open_all xr c f ps")
      case (Inl e)
      with Cons.IH have "\<And>k. map (open_ref_time xr c f) ps \<noteq> map Inr k" by auto
      with Inl Inr show ?thesis by (cases kds) auto
    next
      case R: (Inr ks)
      with Cons.IH have "map (open_ref_time xr c f) ps = map Inr ks" by auto
      with R Inr show ?thesis by (cases kds) (auto simp: inj_map_eq_map)
    qed
  qed
qed

lemma keys_ds_dict_add:
  "map fst (ds_dict_add d kd) = (if fst kd \<in> set (map fst d) then map fst d else map fst d @ [fst kd])"
  by (auto simp: ds_dict_add_def update_keys map_of_eq_None_iff split: option.splits)

lemma keys_foldl_add:
  "map fst (foldl ds_dict_add d kds) =
     fold (\<lambda>x acc. if x \<in> set acc then acc else acc @ [x]) (map fst kds) (map fst d)"
  by (induction kds arbitrary: d) (simp_all add: keys_ds_dict_add)

lemma members_ds_dict_add:
  "members_of (ds_dict_add d kd) k = members_of d k @ (if fst kd = k then [snd kd] else [])"
  by (auto simp: members_of_def ds_dict_add_def update_conv' map_add_def split: option.splits)

lemma members_foldl_add:
  "members_of (foldl ds_dict_add d kds) k = members_of d k @ map snd (filter (\<lambda>kd. fst kd = k) kds)"
  by (induction kds arbitrary: d) (simp_all add: members_ds_dict_add)

lemma distinct_fold_seen:
  "distinct acc \<Longrightarrow> distinct (fold (\<lambda>x acc. if x \<in> set acc then acc else acc @ [x]) xs acc)"
  by (induction xs arbitrary: acc) auto

lemma set_fold_seen:
  "set (fold (\<lambda>x acc. if x \<in> set acc then acc else acc @ [x]) xs acc) = set acc \<union> set xs"
  by (induction xs arbitrary: acc) auto

lemma open_all_total:
  assumes "\<forall>p\<in>set ps. \<exists>kd. open_ref_time xr c f p = Inr kd"
  shows "open_all xr c f ps = Inr (map (\<lambda>p. projr (open_ref_time xr c f p)) ps)"
  using assms by (induction ps) auto

lemma open_all_set:
  assumes "open_all xr c f ps = Inr kds"
  shows "set kds = {kd. \<exists>p\<in>set ps. open_ref_time xr c f p = Inr kd}"
  using assms by (induction ps arbitrary: kds) (auto split: sum.splits)

lemma open_all_ok:
  assumes "open_all xr c f ps = Inr kds"
  shows "\<forall>p\<in>set ps. \<exists>kd. open_ref_time xr c f p = Inr kd"
  using assms
proof (induction ps arbitrary: kds)
  case Nil
  then show ?case by simp
next
  case (Cons p ps)
  from Cons.prems obtain kd ks where "open_ref_time xr c f p = Inr kd"
    and "open_all xr c f ps = Inr ks"
    by (auto split: sum.splits)
  with Cons.IH show ?case by auto
qed

lemma open_all_perm:
  assumes "mset qs = mset ps" and "open_all xr c f ps = Inr kds"
  shows "\<exists>kds'. open_all xr c f qs = Inr kds' \<and> mset kds' = mset kds"
proof -
  let ?g = "\<lambda>p. projr (open_ref_time xr c f p)"
  have ok: "\<forall>p\<in>set ps. \<exists>kd. open_ref_time xr c f p = Inr kd"
    using assms(2) by (rule open_all_ok)
  have "set qs = set ps" using assms(1) by (rule mset_eq_setD)
  with ok have "\<forall>p\<in>set qs. \<exists>kd. open_ref_time xr c f p = Inr kd" by simp
  then have q: "open_all xr c f qs = Inr (map ?g qs)" by (rule open_all_total)
  from ok have "open_all xr c f ps = Inr (map ?g ps)" by (rule open_all_total)
  with assms(2) have "kds = map ?g ps" by simp
  moreover have "mset (map ?g qs) = mset (map ?g ps)" using assms(1) by simp
  ultimately show ?thesis using q by simp
qed

lemma single_ref_update:
  assumes "single_ref d" and "group_ok (k, v)"
  shows "single_ref (AList.update k v d)"
  using assms unfolding single_ref_def
proof (induction d)
  case Nil
  then show ?case by simp
next
  case (Cons g d)
  then show ?case by (cases g) simp
qed

lemma single_ref_add:
  assumes "single_ref d" and "reference_time (snd kd) = [fst kd]"
  shows "single_ref (ds_dict_add d kd)"
proof (cases "map_of d (fst kd)")
  case None
  with assms show ?thesis by (simp add: ds_dict_add_def single_ref_def group_ok_def)
next
  case (Some ms)
  then have "(fst kd, ms) \<in> set d" by (rule map_of_SomeD)
  with assms(1) have "group_ok (fst kd, ms)" by (simp add: single_ref_def list_all_iff)
  with assms(2) have "group_ok (fst kd, ms @ [snd kd])" by (simp add: group_ok_def)
  from single_ref_update [OF assms(1) this] Some show ?thesis by (simp add: ds_dict_add_def)
qed

lemma single_ref_foldl:
  assumes "single_ref d" and "list_all (\<lambda>kd. reference_time (snd kd) = [fst kd]) kds"
  shows "single_ref (foldl ds_dict_add d kds)"
  using assms by (induction kds arbitrary: d) (simp_all add: single_ref_add)

lemma concat_time_reference_time:
  assumes "concat_time ms = Inr fc"
  shows "\<exists>m rest. ms = m # rest \<and> reference_time fc = reference_time m"
  using assms by (auto simp: concat_time_def split: list.splits if_splits)

lemma concat_groups_reference_time:
  assumes "concat_groups d = Inr fl" and "single_ref d"
  shows "concat (map reference_time fl) = map fst d"
  using assms
proof (induction d arbitrary: fl)
  case Nil
  then show ?case by simp
next
  case (Cons g d)
  obtain k ms where g: "g = (k, ms)" by (cases g)
  from Cons.prems(1) g obtain fc fl' where fc: "concat_time ms = Inr fc"
    and fl': "concat_groups d = Inr fl'" and fl: "fl = fc # fl'"
    by (auto split: sum.splits)
  from concat_time_reference_time [OF fc] Cons.prems(2) g
  have "reference_time fc = [k]" by (auto simp: single_ref_def group_ok_def)
  moreover from Cons.prems(2) have "single_ref d" by (simp add: single_ref_def)
  ultimately show ?case using Cons.IH [OF fl'] fl g by simp
qed

lemma concat_reference_time_axis:
  assumes "concat_reference_time fl = Inr res"
  shows "reference_time res = concat (map reference_time fl)"
  using assms by (auto simp: concat_reference_time_def split: list.splits if_splits)

lemma open_nwmdataset_axis:
  assumes "open_nwmdataset xr_open paths chunks forecast = Inr res"
    and "open_all xr_open chunks forecast paths = Inr kds"
    and "list_all (\<lambda>kd. reference_time (snd kd) = [fst kd]) kds"
  shows "reference_time res = first_seen (map fst kds)"
proof -
  let ?d = "foldl ds_dict_add [] kds"
  have g: "group_files xr_open chunks forecast [] paths = Inr ?d"
    by (simp add: group_files_open_all assms(2))
  with assms(1) obtain fl nd where fl: "concat_groups ?d = Inr fl"
    and nd: "concat_reference_time fl = Inr nd"
    and res: "res = (if chunks \<noteq> None then nd\<lparr>chunking := chunks\<rparr> else nd)"
    by (auto simp: open_nwmdataset_def split: sum.splits)
  have "single_ref ?d" by (rule single_ref_foldl) (simp_all add: single_ref_def assms(3))
  from concat_groups_reference_time [OF fl this] concat_reference_time_axis [OF nd] res
  show ?thesis by (simp add: keys_foldl_add first_seen_def)
qed

lemma open_ref_time_no_forecast:
  assumes "xr_open p chunks = Inr ds"
    and "''reference_time'' \<notin> set (dims ds)" and "length (reference_time ds) = 1"
  shows "open_ref_time xr_open chunks False p = Inr (epoch, ds\<lparr>reference_time := [epoch]\<rparr>)"
  using assms by (simp add: open_ref_time_def assign_epoch_def)

lemma open_ref_time_refused:
  assumes "xr_open p chunks = Inr ds" and "''reference_time'' \<in> set (dims ds)"
  shows "open_ref_time xr_open chunks False p = Inl dimension_coordinate_error"
  using assms by (simp add: open_ref_time_def assign_epoch_def)

lemma foldl_add_same_key:
  assumes "list_all (\<lambda>kd. fst kd = k) kds"
  shows "foldl ds_dict_add [(k, ms)] kds = [(k, ms @ map snd kds)]"
  using assms by (induction kds arbitrary: ms) (simp_all add: ds_dict_add_def)

lemma fold_seen_subset:
  "set xs \<subseteq> set acc \<Longrightarrow> fold (\<lambda>x acc. if x \<in> set acc then acc else acc @ [x]) xs acc = acc"
  by (induction xs arbitrary: acc) auto

lemma fold_seen_const:
  "fold (\<lambda>x acc. if x \<in> set acc then acc else acc @ [x]) (map (\<lambda>x. k) ps) [k] = [k]"
  by (induction ps) simp_all

lemmas demo_simps = open_nwmdataset_def open_ref_time_def assign_epoch_def demo_open_def
  plain_open_def nwm_dims_def ds_dict_add_def concat_time_def concat_reference_time_def epoch_def
  members_of_def dimension_coordinate_error_def shape_error_def

subsection \<open>Claims on the assembler\<close>

text \<open>
  Without forecasts, where the library accepts the assignment (every file opens with a
  \<open>reference_time\<close> coordinate of one value that is no dimension coordinate): every
  dataset enters the grouping with the epoch as its \<open>reference_time\<close>, the grouping has
  the one key, the epoch, with all files as its members, and an assembled dataset has the
  epoch as its only \<open>reference_time\<close> value.
\<close>

lemma no_forecast_single_group:
  assumes "paths \<noteq> []"
    and "\<forall>p\<in>set paths. \<exists>ds. xr_open p chunks = Inr ds \<and> ''reference_time'' \<notin> set (dims ds) \<and>
           length (reference_time ds) = 1"
  shows "\<exists>members.
           members = map (\<lambda>p. (projr (xr_open p chunks))\<lparr>reference_time := [epoch]\<rparr>) paths \<and>
           group_files xr_open chunks False [] paths = Inr [(epoch, members)] \<and>
           (\<forall>res. open_nwmdataset xr_open paths chunks False = Inr res
                  \<longrightarrow> reference_time res = [epoch])"
proof -
  let ?ow = "\<lambda>p. (projr (xr_open p chunks))\<lparr>reference_time := [epoch]\<rparr>"
  let ?members = "map ?ow paths"
  have o: "\<And>p. p \<in> set paths \<Longrightarrow> open_ref_time xr_open chunks False p = Inr (epoch, ?ow p)"
  proof -
    fix p assume "p \<in> set paths"
    with assms(2) obtain ds where "xr_open p chunks = Inr ds"
      and "''reference_time'' \<notin> set (dims ds)" and "length (reference_time ds) = 1" by blast
    then show "open_ref_time xr_open chunks False p = Inr (epoch, ?ow p)"
      by (simp add: open_ref_time_no_forecast)
  qed
  then have "\<forall>p\<in>set paths. \<exists>kd. open_ref_time xr_open chunks False p = Inr kd" by blast
  then have "open_all xr_open chunks False paths =
      Inr (map (\<lambda>p. projr (open_ref_time xr_open chunks False p)) paths)"
    by (rule open_all_total)
  moreover have "map (\<lambda>p. projr (open_ref_time xr_open chunks False p)) paths
      = map (\<lambda>p. (epoch, ?ow p)) paths"
    using o by simp
  ultimately have all: "open_all xr_open chunks False paths = Inr (map (\<lambda>p. (epoch, ?ow p)) paths)"
    by simp
  from assms(1) obtain p ps where paths: "paths = p # ps" by (cases paths) auto
  have "foldl ds_dict_add [] (map (\<lambda>p. (epoch, ?ow p)) paths)
      = foldl ds_dict_add [(epoch, [?ow p])] (map (\<lambda>p. (epoch, ?ow p)) ps)"
    by (simp add: paths ds_dict_add_def)
  also have "\<dots> = [(epoch, [?ow p] @ map snd (map (\<lambda>p. (epoch, ?ow p)) ps))]"
    by (rule foldl_add_same_key) (simp add: list_all_iff)
  also have "\<dots> = [(epoch, ?members)]" by (simp add: paths comp_def)
  finally have g: "group_files xr_open chunks False [] paths = Inr [(epoch, ?members)]"
    by (simp add: group_files_open_all all)
  have r: "\<forall>res. open_nwmdataset xr_open paths chunks False = Inr res
      \<longrightarrow> reference_time res = [epoch]"
  proof (intro allI impI)
    fix res assume res: "open_nwmdataset xr_open paths chunks False = Inr res"
    have "list_all (\<lambda>kd. reference_time (snd kd) = [fst kd]) (map (\<lambda>p. (epoch, ?ow p)) paths)"
      by (simp add: list_all_iff)
    from open_nwmdataset_axis [OF res all this]
    show "reference_time res = [epoch]"
      by (simp add: first_seen_def paths comp_def fold_seen_const)
  qed
  show ?thesis
    by (rule exI [of _ ?members]) (intro conjI refl g r)
qed

text \<open>
  Without forecasts, a first file whose \<open>reference_time\<close> is a dimension coordinate ends
  the call with the library's \<open>ValueError\<close>, whatever files follow.
\<close>

lemma no_forecast_dimension_coordinate:
  assumes "xr_open p chunks = Inr ds" and "''reference_time'' \<in> set (dims ds)"
  shows "open_nwmdataset xr_open (p # paths) chunks False = Inl dimension_coordinate_error"
  using assms by (simp add: open_nwmdataset_def open_ref_time_refused)

text \<open>
  Claim C3. Over the three model output files 1, 2 and 4, whose \<open>reference_time\<close> is a
  dimension coordinate (with the values 1 h, 2 h, 1 h), the call without forecasts does
  not set the coordinate to 1970-01-01T00:00:00 and builds no single group: it ends with
  the \<open>ValueError\<close> of the assignment at the first file. With forecasts the same files
  assemble, and files that carry \<open>reference_time\<close> as a plain coordinate give the one
  group of the epoch.
\<close>

theorem no_forecast_overwrite_refused:
  "open_nwmdataset demo_open [1, 2, 4] None False =
     Inl (ValueError ''Cannot assign to the .values attribute of dimension coordinate a.k.a IndexVariable'') \<and>
   open_nwmdataset demo_open [1, 2, 4] None True =
     Inr \<lparr>reference_time = [3600, 7200], time = [1, 2, 4], feature_id = [101, 102],
          chunking = None, dims = nwm_dims\<rparr> \<and>
   open_nwmdataset plain_open [1, 2, 4] None False =
     Inr \<lparr>reference_time = [epoch], time = [1, 2, 4], feature_id = [101, 102],
          chunking = None, dims = [''time'', ''feature_id'']\<rparr>"
  by (simp add: demo_simps)

text \<open>
  Claim C4. Whenever the assembler returns a dataset over files that each carry one
  \<open>reference_time\<close> value, the \<open>reference_time\<close> axis of the result is the list of the
  distinct keys the grouping pass read, each once, in the order in which it first met
  them: the concatenation along \<open>reference_time\<close> keeps the order of the groups and sorts
  nothing.
\<close>

theorem reference_time_axis_first_seen:
  assumes "open_nwmdataset xr_open paths chunks forecast = Inr res"
    and "\<forall>p\<in>set paths. \<forall>ds. xr_open p chunks = Inr ds \<longrightarrow> length (reference_time ds) = 1"
  shows "\<exists>kds. map (open_ref_time xr_open chunks forecast) paths = map Inr kds \<and>
           reference_time res = first_seen (map fst kds) \<and>
           distinct (reference_time res) \<and>
           set (reference_time res) = set (map fst kds)"
proof -
  from assms(1) obtain kds where kds: "open_all xr_open chunks forecast paths = Inr kds"
    by (auto simp: open_nwmdataset_def group_files_open_all split: sum.splits)
  have "\<And>kd. kd \<in> set kds \<Longrightarrow> reference_time (snd kd) = [fst kd]"
  proof -
    fix kd assume "kd \<in> set kds"
    with open_all_set [OF kds] obtain p where p: "p \<in> set paths"
      and o: "open_ref_time xr_open chunks forecast p = Inr kd" by auto
    from o p assms(2) show "reference_time (snd kd) = [fst kd]"
      by (auto simp: open_ref_time_def assign_epoch_def length_Suc_conv
          split: sum.splits list.splits if_splits)
  qed
  then have "list_all (\<lambda>kd. reference_time (snd kd) = [fst kd]) kds" by (simp add: list_all_iff)
  from open_nwmdataset_axis [OF assms(1) kds this]
  have ax: "reference_time res = first_seen (map fst kds)" .
  moreover have "distinct (first_seen (map fst kds))"
    by (simp add: first_seen_def distinct_fold_seen)
  moreover have "set (first_seen (map fst kds)) = set (map fst kds)"
    by (simp add: first_seen_def set_fold_seen)
  ultimately show ?thesis using kds by (auto simp: open_all_Inr_iff)
qed

text \<open>
  At the files 2, 1, 4, 3, 5 the keys are met as 2 h, 1 h, 1 h, 0 h, 2 h: the axis is
  2 h, 1 h, 0 h, which is not ascending.
\<close>

theorem reference_time_axis_first_seen_witness:
  "open_nwmdataset demo_open [2, 1, 4, 3, 5] None True =
     Inr \<lparr>reference_time = [7200, 3600, 0], time = [1, 2, 3, 4, 5],
          feature_id = [101, 102], chunking = None, dims = nwm_dims\<rparr> \<and>
   first_seen [7200, 3600, 3600, 0, 7200 :: int] = [7200, 3600, 0] \<and>
   \<not> sorted [7200, 3600, 0 :: int]"
proof -
  let ?paths = "[2, 1, 4, 3, 5 :: nat]"
  let ?res = "\<lparr>reference_time = [7200, 3600, 0], time = [1, 2, 3, 4, 5],
          feature_id = [101, 102], chunking = None, dims = nwm_dims\<rparr>"
  have res: "open_nwmdataset demo_open ?paths None True = Inr ?res"
    by (simp add: demo_simps)
  have h: "\<forall>p\<in>set ?paths. \<forall>ds. demo_open p None = Inr ds \<longrightarrow> length (reference_time ds) = 1"
    by (simp add: demo_open_def)
  from reference_time_axis_first_seen [OF res h] obtain kds
    where k: "map (open_ref_time demo_open None True) ?paths = map Inr kds"
      and a: "reference_time ?res = first_seen (map fst kds)"
    by (elim exE conjE)
  have "map (open_ref_time demo_open None True) ?paths =
     map Inr [(7200, \<lparr>reference_time = [7200], time = [2], feature_id = [101, 102], chunking = None, dims = nwm_dims\<rparr>),
       (3600, \<lparr>reference_time = [3600], time = [1], feature_id = [101, 102], chunking = None, dims = nwm_dims\<rparr>),
       (3600, \<lparr>reference_time = [3600], time = [4], feature_id = [101, 102], chunking = None, dims = nwm_dims\<rparr>),
       (0, \<lparr>reference_time = [0], time = [3], feature_id = [101, 102], chunking = None, dims = nwm_dims\<rparr>),
       (7200, \<lparr>reference_time = [7200], time = [5], feature_id = [101, 102], chunking = None, dims = nwm_dims\<rparr>)]"
    by (simp add: demo_simps)
  with k have "kds = [(7200, \<lparr>reference_time = [7200], time = [2], feature_id = [101, 102], chunking = None, dims = nwm_dims\<rparr>),
       (3600, \<lparr>reference_time = [3600], time = [1], feature_id = [101, 102], chunking = None, dims = nwm_dims\<rparr>),
       (3600, \<lparr>reference_time = [3600], time = [4], feature_id = [101, 102], chunking = None, dims = nwm_dims\<rparr>),
       (0, \<lparr>reference_time = [0], time = [3], feature_id = [101, 102], chunking = None, dims = nwm_dims\<rparr>),
       (7200, \<lparr>reference_time = [7200], time = [5], feature_id = [101, 102], chunking = None, dims = nwm_dims\<rparr>)]"
    by (simp only: inj_map_eq_map [OF inj_Inr])
  with a have "first_seen [7200, 3600, 3600, 0, 7200 :: int] = [7200, 3600, 0]" by simp
  moreover have "\<not> sorted [7200, 3600, 0 :: int]" by simp
  ultimately show ?thesis using res by (intro conjI)
qed

text \<open>
  Claim C8. If the grouping pass succeeds on a list of files, it succeeds on every
  permutation of the list, with the same keys and, under each key, the same set of
  members: the datasets of exactly those files whose (possibly overwritten) reference
  time is the key.
\<close>

theorem grouping_membership_permutation:
  assumes "mset paths' = mset paths"
    and "group_files xr_open chunks forecast [] paths = Inr ds_dict"
  shows "\<exists>ds_dict'. group_files xr_open chunks forecast [] paths' = Inr ds_dict' \<and>
           set (map fst ds_dict') = set (map fst ds_dict) \<and>
           (\<forall>key. set (members_of ds_dict' key) = set (members_of ds_dict key)) \<and>
           (\<forall>key. set (members_of ds_dict key) =
              {ds. \<exists>p\<in>set paths. open_ref_time xr_open chunks forecast p = Inr (key, ds)})"
proof -
  from assms(2) obtain kds where kds: "open_all xr_open chunks forecast paths = Inr kds"
    and d: "ds_dict = foldl ds_dict_add [] kds"
    by (auto simp: group_files_open_all split: sum.splits)
  from open_all_perm [OF assms(1) kds] obtain kds'
    where kds': "open_all xr_open chunks forecast paths' = Inr kds'" and m: "mset kds' = mset kds"
    by blast
  let ?d' = "foldl ds_dict_add [] kds'"
  have g: "group_files xr_open chunks forecast [] paths' = Inr ?d'"
    by (simp add: group_files_open_all kds')
  have s: "set kds' = set kds" using m by (rule mset_eq_setD)
  have k: "set (map fst ?d') = set (map fst ds_dict)"
    by (simp add: d keys_foldl_add set_fold_seen s)
  have e: "\<And>key. members_of [] key = []" by (simp add: members_of_def)
  have mem: "\<forall>key. set (members_of ?d' key) = set (members_of ds_dict key)"
    by (simp add: d members_foldl_add e s)
  have files: "\<forall>key. set (members_of ds_dict key) =
      {ds. \<exists>p\<in>set paths. open_ref_time xr_open chunks forecast p = Inr (key, ds)}"
  proof
    fix key
    have "set (members_of ds_dict key) = snd ` {kd \<in> set kds. fst kd = key}"
      by (simp add: d members_foldl_add e)
    also have "\<dots> = {ds. (key, ds) \<in> set kds}" by force
    also have "\<dots> = {ds. \<exists>p\<in>set paths. open_ref_time xr_open chunks forecast p = Inr (key, ds)}"
      by (simp add: open_all_set [OF kds])
    finally show "set (members_of ds_dict key) =
      {ds. \<exists>p\<in>set paths. open_ref_time xr_open chunks forecast p = Inr (key, ds)}" .
  qed
  show ?thesis
    by (rule exI [of _ ?d']) (intro conjI g k mem files)
qed

theorem grouping_membership_permutation_witness:
  "mset [4, 2, 1 :: nat] = mset [1, 2, 4] \<and>
   (\<exists>d'. group_files demo_open None True [] [4, 2, 1] = Inr d' \<and>
      set (members_of d' 3600) =
        {\<lparr>reference_time = [3600], time = [1], feature_id = [101, 102], chunking = None, dims = nwm_dims\<rparr>,
         \<lparr>reference_time = [3600], time = [4], feature_id = [101, 102], chunking = None, dims = nwm_dims\<rparr>})"
proof -
  let ?d = "[(3600, [\<lparr>reference_time = [3600], time = [1], feature_id = [101, 102], chunking = None, dims = nwm_dims\<rparr>,
       \<lparr>reference_time = [3600], time = [4], feature_id = [101, 102], chunking = None, dims = nwm_dims\<rparr>]),
     (7200, [\<lparr>reference_time = [7200], time = [2], feature_id = [101, 102], chunking = None, dims = nwm_dims\<rparr>])]"
  have h1: "mset [4, 2, 1 :: nat] = mset [1, 2, 4]" by (simp add: add_mset_commute)
  have d: "group_files demo_open None True [] [1, 2, 4] = Inr ?d"
    by (simp add: demo_simps)
  from grouping_membership_permutation [OF h1 d] obtain d'
    where d': "group_files demo_open None True [] [4, 2, 1] = Inr d'"
      and m: "\<forall>key. set (members_of d' key) = set (members_of ?d key)"
    by (elim exE conjE)
  from m have "set (members_of d' 3600) = set (members_of ?d 3600)" by (rule spec)
  also have "\<dots> = {\<lparr>reference_time = [3600], time = [1], feature_id = [101, 102], chunking = None, dims = nwm_dims\<rparr>,
         \<lparr>reference_time = [3600], time = [4], feature_id = [101, 102], chunking = None, dims = nwm_dims\<rparr>}"
    by (simp add: members_of_def)
  finally have "\<exists>d'. group_files demo_open None True [] [4, 2, 1] = Inr d' \<and>
      set (members_of d' 3600) =
        {\<lparr>reference_time = [3600], time = [1], feature_id = [101, 102], chunking = None, dims = nwm_dims\<rparr>,
         \<lparr>reference_time = [3600], time = [4], feature_id = [101, 102], chunking = None, dims = nwm_dims\<rparr>}"
    using d' by (intro exI conjI)
  with h1 show ?thesis by (intro conjI)
qed

section \<open>Proofs about the relocator\<close>

lemmas string_simps = str_split_def item_def is_digit_def digit_value_def digits_value_def
  first_int_def

lemmas date_simps = is_leap_def days_in_month_tab_def days_before_month_tab_def
  days_in_month_def days_before_year_def days_before_month_def ymd2ord_def ord2ymd_def
  max_ordinal_def add_hours_def digit_char_def pad2_def pad4_def match_month_def
  match_day_def lower_nwm_def strptime_nwm_def strftime.simps Let_def

lemmas fs_simps = path_name_def lookup_def resolve.simps stat_def path_exists_def is_dir_def
  enoent_def check_parent_def os_mkdir_def path_mkdir_def symlink_to_def open_read_def
  open_write_def samefile_def shutil_copy_def

lemmas glob_simps = class_end_def char_class_def fnmatch_def is_wildcard_pattern_def
  children_def glob_def unacceptable_pattern_def invalid_pattern_def

lemmas relocator_simps = normalize_range_def re_range_def member_pattern_def file_pattern_def
  unsupported_forc_type_def ldasin_format_def materialize_def relocate_file_def
  source_dirs_missing_def source_dir_missing_def no_daily_dirs_def prepare_def
  nwm_forcing_to_ldasin_def

lemmas scenario_simps = forcing_f003_def scenario_fs_def scenario_def

subsection \<open>What the file operations do\<close>

lemma resolve_no_link:
  assumes "\<And>t. lookup fs p \<noteq> Some (Link t)"
  shows "resolve fs n p = Some p"
proof (cases "lookup fs p")
  case None
  then show ?thesis by (simp add: resolve.simps)
next
  case (Some nd)
  with assms [of "case nd of Link t \<Rightarrow> t | _ \<Rightarrow> []"] show ?thesis
    by (cases nd) (simp_all add: resolve.simps)
qed

lemma stat_no_link:
  assumes "\<And>t. lookup fs p \<noteq> Some (Link t)"
  shows "stat fs p = (case lookup fs p of None \<Rightarrow> None | Some nd \<Rightarrow> Some (p, nd))"
  by (simp add: stat_def resolve_no_link [OF assms])


lemma stat_File: "lookup fs p = Some (File c) \<Longrightarrow> stat fs p = Some (p, File c)"
  by (simp add: stat_no_link)

lemma stat_None: "lookup fs p = None \<Longrightarrow> stat fs p = None"
  by (simp add: stat_no_link)

lemma lookup_append_new:
  assumes "lookup fs p = None"
  shows "lookup (fs @ [(p, nd)]) p = Some nd"
  using assms by (auto simp: lookup_def map_add_def split: if_splits)

lemma check_parent_error:
  "check_parent fs p = Some e \<Longrightarrow> os_error e"
  by (auto simp: check_parent_def os_error_def split: option.splits node.splits)

lemma os_mkdir_error: "os_mkdir fs p = Inl e \<Longrightarrow> os_error e"
  by (auto simp: os_mkdir_def os_error_def dest: check_parent_error split: if_splits option.splits)

lemma os_mkdir_Inr:
  "os_mkdir fs p = Inr fs1 \<Longrightarrow> lookup fs p = None \<and> fs1 = fs @ [(p, Dir)]"
  by (auto simp: os_mkdir_def split: if_splits option.splits)

lemma path_mkdir_error: "path_mkdir fs p = Inl e \<Longrightarrow> os_error e"
  by (auto simp: path_mkdir_def dest: os_mkdir_error split: sum.splits error.splits if_splits)

lemma path_mkdir_Inr:
  assumes "path_mkdir fs p = Inr fs1"
  shows "(fs1 = fs \<and> is_dir fs p) \<or> (fs1 = fs @ [(p, Dir)] \<and> lookup fs p = None)"
  using assms
  by (auto simp: path_mkdir_def dest: os_mkdir_Inr split: sum.splits error.splits if_splits)


lemma symlink_to_error: "symlink_to fs p t = Inl e \<Longrightarrow> os_error e"
  by (auto simp: symlink_to_def os_error_def dest: check_parent_error split: if_splits option.splits)

lemma symlink_to_exists:
  "lookup fs p \<noteq> None \<Longrightarrow> symlink_to fs p t = Inl FileExistsError"
  by (simp add: symlink_to_def)

lemma symlink_to_Inr:
  assumes "symlink_to fs p t = Inr fs'"
  shows "fs' = fs @ [(p, Link t)] \<and> lookup fs p = None \<and> lookup fs' p = Some (Link t)"
  using assms
  by (auto simp: symlink_to_def lookup_append_new split: if_splits option.splits)

lemma open_read_error: "open_read fs p = Inl e \<Longrightarrow> os_error e"
  by (auto simp: open_read_def os_error_def split: option.splits node.splits)

lemma open_write_error: "open_write fs p c = Inl e \<Longrightarrow> os_error e"
  by (auto simp: open_write_def os_error_def dest: check_parent_error
      split: option.splits node.splits)

lemma shutil_copy_error: "shutil_copy fs src dst = Inl e \<Longrightarrow> os_error e"
  by (auto simp: shutil_copy_def Let_def os_error_def dest: open_read_error open_write_error
      split: if_splits sum.splits)

lemma materialize_error: "materialize fs copy f dst = Inl e \<Longrightarrow> os_error e"
  by (auto simp: materialize_def dest: shutil_copy_error symlink_to_error split: if_splits)

lemma os_error_simps [simp]:
  "\<not> os_error unsupported_forc_type" "\<not> os_error source_dirs_missing"
  "\<not> os_error IndexError" "\<not> os_error OverflowError"
  by (simp_all add: os_error_def unsupported_forc_type_def source_dirs_missing_def enoent_def)

lemma item_error: "item xs i = Inl e \<Longrightarrow> e = IndexError"
  by (simp add: item_def split: if_splits)

lemma first_int_error: "first_int s = Inl e \<Longrightarrow> e = IndexError"
  by (simp add: first_int_def split: list.splits)

lemma add_hours_error: "add_hours dt k = Inl e \<Longrightarrow> e = OverflowError"
  by (simp add: add_hours_def Let_def split: if_splits prod.splits)

lemma ldasin_format_error: "ldasin_format ft = Inl e \<Longrightarrow> e = unsupported_forc_type \<and> ft \<noteq> 1 \<and> ft \<noteq> 2"
  by (simp add: ldasin_format_def split: if_splits)

subsection \<open>The loop body, step by step\<close>

lemma relocate_file_steps:
  assumes "item (str_split ''.'' (path_name f)) 1 = Inr f1" and "first_int f1 = Inr h"
    and "add_hours D h = Inr it"
    and "path_mkdir fs (ld @ [strftime it ''%Y%m%d%H'']) = Inr fs1"
    and "item (str_split ''.'' (path_name f)) 4 = Inr f4" and "first_int f4 = Inr c"
    and "add_hours D (if contains ''analysis_assim'' rng then h - c else h + c) = Inr lt"
  shows "relocate_file fs ld rng copy ft D f =
     (case ldasin_format ft of
        Inl e \<Rightarrow> Inl (e, fs1)
      | Inr fmt \<Rightarrow>
          (case materialize fs1 copy f (ld @ [strftime it ''%Y%m%d%H'', strftime lt fmt]) of
             Inl e \<Rightarrow> Inl (e, fs1)
           | Inr fs2 \<Rightarrow> Inr fs2))"
  using assms by (cases "ldasin_format ft") (simp_all add: relocate_file_def Let_def)

lemma relocate_file_Inr:
  assumes "relocate_file fs ld rng copy ft D f = Inr fs'"
  shows "\<exists>f1 h it fs1 f4 c lt fmt.
     item (str_split ''.'' (path_name f)) 1 = Inr f1 \<and> first_int f1 = Inr h \<and>
     add_hours D h = Inr it \<and>
     path_mkdir fs (ld @ [strftime it ''%Y%m%d%H'']) = Inr fs1 \<and>
     item (str_split ''.'' (path_name f)) 4 = Inr f4 \<and> first_int f4 = Inr c \<and>
     add_hours D (if contains ''analysis_assim'' rng then h - c else h + c) = Inr lt \<and>
     ldasin_format ft = Inr fmt \<and>
     materialize fs1 copy f (ld @ [strftime it ''%Y%m%d%H'', strftime lt fmt]) = Inr fs'"
proof -
  from assms obtain f1 where f1: "item (str_split ''.'' (path_name f)) 1 = Inr f1"
    by (cases "item (str_split ''.'' (path_name f)) 1") (simp_all add: relocate_file_def Let_def)
  from assms f1 obtain h where h: "first_int f1 = Inr h"
    by (cases "first_int f1") (simp_all add: relocate_file_def Let_def)
  from assms f1 h obtain it where it: "add_hours D h = Inr it"
    by (cases "add_hours D h") (simp_all add: relocate_file_def Let_def)
  from assms f1 h it obtain fs1 where fs1: "path_mkdir fs (ld @ [strftime it ''%Y%m%d%H'']) = Inr fs1"
    by (cases "path_mkdir fs (ld @ [strftime it ''%Y%m%d%H''])")
      (simp_all add: relocate_file_def Let_def)
  from assms f1 h it fs1 obtain f4 where f4: "item (str_split ''.'' (path_name f)) 4 = Inr f4"
    by (cases "item (str_split ''.'' (path_name f)) 4") (simp_all add: relocate_file_def Let_def)
  from assms f1 h it fs1 f4 obtain c where c: "first_int f4 = Inr c"
    by (cases "first_int f4") (simp_all add: relocate_file_def Let_def)
  from assms f1 h it fs1 f4 c obtain lt
    where lt: "add_hours D (if contains ''analysis_assim'' rng then h - c else h + c) = Inr lt"
    by (cases "add_hours D (if contains ''analysis_assim'' rng then h - c else h + c)")
      (simp_all add: relocate_file_def Let_def)
  note eq = relocate_file_steps [OF f1 h it fs1 f4 c lt, of copy ft]
  from assms eq obtain fmt where fmt: "ldasin_format ft = Inr fmt"
    by (cases "ldasin_format ft") simp_all
  from assms eq fmt
  have "materialize fs1 copy f (ld @ [strftime it ''%Y%m%d%H'', strftime lt fmt]) = Inr fs'"
    by (cases "materialize fs1 copy f (ld @ [strftime it ''%Y%m%d%H'', strftime lt fmt])")
      simp_all
  with f1 h it fs1 f4 c lt fmt show ?thesis by blast
qed

lemma relocate_file_Inl:
  assumes "relocate_file fs ld rng copy ft D f = Inl (e, fs')"
  shows "e = IndexError \<or> e = OverflowError \<or> os_error e \<or> e = unsupported_forc_type"
proof -
  let ?ns = "str_split ''.'' (path_name f)"
  show ?thesis
  proof (cases "item ?ns 1")
    case (Inl x)
    with assms show ?thesis by (auto simp: relocate_file_def Let_def dest: item_error)
  next
    case f1: (Inr f1)
    show ?thesis
    proof (cases "first_int f1")
      case (Inl x)
      with assms f1 show ?thesis by (auto simp: relocate_file_def Let_def dest: first_int_error)
    next
      case h: (Inr h)
      show ?thesis
      proof (cases "add_hours D h")
        case (Inl x)
        with assms f1 h show ?thesis
          by (auto simp: relocate_file_def Let_def dest: add_hours_error)
      next
        case it: (Inr it)
        show ?thesis
        proof (cases "path_mkdir fs (ld @ [strftime it ''%Y%m%d%H''])")
          case (Inl x)
          with assms f1 h it show ?thesis
            by (auto simp: relocate_file_def Let_def dest: path_mkdir_error)
        next
          case fs1: (Inr fs1)
          show ?thesis
          proof (cases "item ?ns 4")
            case (Inl x)
            with assms f1 h it fs1 show ?thesis
              by (auto simp: relocate_file_def Let_def dest: item_error)
          next
            case f4: (Inr f4)
            show ?thesis
            proof (cases "first_int f4")
              case (Inl x)
              with assms f1 h it fs1 f4 show ?thesis
                by (auto simp: relocate_file_def Let_def dest: first_int_error)
            next
              case c: (Inr c)
              show ?thesis
              proof (cases "add_hours D (if contains ''analysis_assim'' rng then h - c else h + c)")
                case (Inl x)
                with assms f1 h it fs1 f4 c show ?thesis
                  by (auto simp: relocate_file_def Let_def dest: add_hours_error)
              next
                case lt: (Inr lt)
                note eq = relocate_file_steps [OF f1 h it fs1 f4 c lt, of copy ft]
                show ?thesis
                proof (cases "ldasin_format ft")
                  case (Inl x)
                  with assms eq show ?thesis by (auto dest: ldasin_format_error)
                next
                  case (Inr fmt)
                  with assms eq show ?thesis
                    by (auto dest: materialize_error split: sum.splits)
                qed
              qed
            qed
          qed
        qed
      qed
    qed
  qed
qed

lemma relocate_file_unsupported:
  assumes "relocate_file fs ld rng copy ft D f = Inl (unsupported_forc_type, fs')"
  shows "ft \<noteq> 1 \<and> ft \<noteq> 2 \<and>
     (\<exists>f1 h it. item (str_split ''.'' (path_name f)) 1 = Inr f1 \<and> first_int f1 = Inr h \<and>
        add_hours D h = Inr it \<and> path_mkdir fs (ld @ [strftime it ''%Y%m%d%H'']) = Inr fs')"
proof -
  let ?ns = "str_split ''.'' (path_name f)"
  have u: "unsupported_forc_type \<noteq> IndexError" "unsupported_forc_type \<noteq> OverflowError"
    by (simp_all add: unsupported_forc_type_def)
  from assms u obtain f1 where f1: "item ?ns 1 = Inr f1"
    by (cases "item ?ns 1") (auto simp: relocate_file_def Let_def dest: item_error)
  from assms u f1 obtain h where h: "first_int f1 = Inr h"
    by (cases "first_int f1") (auto simp: relocate_file_def Let_def dest: first_int_error)
  from assms u f1 h obtain it where it: "add_hours D h = Inr it"
    by (cases "add_hours D h") (auto simp: relocate_file_def Let_def dest: add_hours_error)
  from assms f1 h it obtain fs1 where fs1: "path_mkdir fs (ld @ [strftime it ''%Y%m%d%H'']) = Inr fs1"
    by (cases "path_mkdir fs (ld @ [strftime it ''%Y%m%d%H''])")
      (auto simp: relocate_file_def Let_def dest: path_mkdir_error)
  from assms u f1 h it fs1 obtain f4 where f4: "item ?ns 4 = Inr f4"
    by (cases "item ?ns 4") (auto simp: relocate_file_def Let_def dest: item_error)
  from assms u f1 h it fs1 f4 obtain c where c: "first_int f4 = Inr c"
    by (cases "first_int f4") (auto simp: relocate_file_def Let_def dest: first_int_error)
  from assms u f1 h it fs1 f4 c obtain lt
    where lt: "add_hours D (if contains ''analysis_assim'' rng then h - c else h + c) = Inr lt"
    by (cases "add_hours D (if contains ''analysis_assim'' rng then h - c else h + c)")
      (auto simp: relocate_file_def Let_def dest: add_hours_error)
  note eq = relocate_file_steps [OF f1 h it fs1 f4 c lt, of copy ft]
  from assms eq have ft: "ft \<noteq> 1 \<and> ft \<noteq> 2" and "fs' = fs1"
    by (auto dest: ldasin_format_error materialize_error split: sum.splits)
  with f1 h it fs1 show ?thesis by blast
qed

subsection \<open>The loops\<close>

lemma files_loop_Inl:
  assumes "files_loop fs ld rng copy ft D fl = Inl (e, fs')"
  shows "\<exists>fs0 f. f \<in> set fl \<and> relocate_file fs0 ld rng copy ft D f = Inl (e, fs')"
  using assms
proof (induction fl arbitrary: fs)
  case Nil
  then show ?case by simp
next
  case (Cons f fl)
  show ?case
  proof (cases "relocate_file fs ld rng copy ft D f")
    case (Inl x)
    with Cons.prems show ?thesis by auto
  next
    case (Inr fs1)
    with Cons.prems have "files_loop fs1 ld rng copy ft D fl = Inl (e, fs')" by simp
    from Cons.IH [OF this] show ?thesis by auto
  qed
qed

lemma glob_Inl:
  assumes "glob fs d pat = Inl e"
  shows "e = unacceptable_pattern \<or> e = invalid_pattern"
  using assms by (auto simp: glob_def split: if_splits option.splits prod.splits node.splits)

lemma members_loop_Inl:
  assumes "members_loop fs ld rng copy ft D ms = Inl (e, fs')"
  shows "(\<exists>fs0 f. relocate_file fs0 ld rng copy ft D f = Inl (e, fs')) \<or>
         e = unacceptable_pattern \<or> e = invalid_pattern"
  using assms
proof (induction ms arbitrary: fs)
  case Nil
  then show ?case by simp
next
  case (Cons m ms)
  show ?case
  proof (cases "is_dir fs m")
    case False
    with Cons show ?thesis by simp
  next
    case True
    show ?thesis
    proof (cases "glob fs m (file_pattern rng)")
      case (Inl x)
      with Cons.prems True have "x = e" by simp
      with glob_Inl [OF Inl] show ?thesis by simp
    next
      case fl: (Inr fl)
      show ?thesis
      proof (cases "files_loop fs ld rng copy ft D fl")
        case (Inl x)
        with Cons.prems True fl have "files_loop fs ld rng copy ft D fl = Inl (e, fs')"
          by simp
        from files_loop_Inl [OF this] show ?thesis by blast
      next
        case (Inr fs1)
        with Cons.prems True fl have "members_loop fs1 ld rng copy ft D ms = Inl (e, fs')"
          by simp
        from Cons.IH [OF this] show ?thesis .
      qed
    qed
  qed
qed

lemma days_loop_Inl:
  assumes "days_loop fs ld rng copy ft ds = Inl (e, fs')"
  shows "(\<exists>d \<in> set ds. strptime_nwm (path_name d) = Inl e) \<or>
         (\<exists>fs0 D f. relocate_file fs0 ld rng copy ft D f = Inl (e, fs')) \<or>
         e = unacceptable_pattern \<or> e = invalid_pattern"
  using assms
proof (induction ds arbitrary: fs)
  case Nil
  then show ?case by simp
next
  case (Cons d ds)
  show ?case
  proof (cases "strptime_nwm (path_name d)")
    case (Inl x)
    with Cons.prems show ?thesis by auto
  next
    case D: (Inr D)
    show ?thesis
    proof (cases "glob fs d (member_pattern rng)")
      case (Inl x)
      with Cons.prems D have "x = e" by simp
      with glob_Inl [OF Inl] show ?thesis by simp
    next
      case ms: (Inr ms)
      show ?thesis
      proof (cases "members_loop fs ld rng copy ft D (sort ms)")
        case (Inl x)
        with Cons.prems D ms
        have "members_loop fs ld rng copy ft D (sort ms) = Inl (e, fs')"
          by simp
        from members_loop_Inl [OF this] show ?thesis by blast
      next
        case (Inr fs1)
        with Cons.prems D ms have "days_loop fs1 ld rng copy ft ds = Inl (e, fs')" by simp
        from Cons.IH [OF this] show ?thesis by auto
      qed
    qed
  qed
qed

lemma strptime_nwm_error: "strptime_nwm s = Inl e \<Longrightarrow> \<exists>m. e = ValueError m \<and> e \<noteq> unsupported_forc_type"
  by (auto simp: strptime_nwm_def Let_def unsupported_forc_type_def
      split: if_splits list.splits prod.splits)




lemmas eval_simps = string_simps date_simps fs_simps glob_simps relocator_simps scenario_simps
  day_20200601_def

subsection \<open>Names and times\<close>

text \<open>The calendar at work: the end of a month, of a leap February, of a year, and backwards.\<close>

lemma add_hours_examples:
  "add_hours \<lparr>year = 2020, month = 12, day = 31, hour = 0\<rparr> 27
     = Inr \<lparr>year = 2021, month = 1, day = 1, hour = 3\<rparr>"
  "add_hours \<lparr>year = 2020, month = 2, day = 28, hour = 0\<rparr> 24
     = Inr \<lparr>year = 2020, month = 2, day = 29, hour = 0\<rparr>"
  "add_hours \<lparr>year = 2021, month = 2, day = 28, hour = 0\<rparr> 24
     = Inr \<lparr>year = 2021, month = 3, day = 1, hour = 0\<rparr>"
  "add_hours \<lparr>year = 2020, month = 6, day = 1, hour = 0\<rparr> (0 - 2)
     = Inr \<lparr>year = 2020, month = 5, day = 31, hour = 22\<rparr>"
  "add_hours \<lparr>year = 9999, month = 12, day = 31, hour = 0\<rparr> 24 = Inl OverflowError"
  "strptime_nwm ''nwm.20200601'' = Inr day_20200601"
  "strptime_nwm ''nwm.20200230'' = Inl (ValueError ''day is out of range for month'')"
  "strptime_nwm ''nwm.2020-06-01'' = Inl (ValueError ''time data does not match format nwm.%Y%m%d'')"
  by (simp_all add: eval_simps)

lemma lookup_after_symlink:
  assumes "materialize fs1 False f dest = Inr fs'"
  shows "lookup fs' dest = Some (Link f)"
  using assms by (auto simp: materialize_def dest: symlink_to_Inr)

lemma copy_to_new:
  assumes "materialize fs1 True f dest = Inr fs'" and "lookup fs1 dest = None"
  shows "\<exists>content. open_read fs1 f = Inr content \<and> lookup fs' dest = Some (File content)"
proof -
  from assms(2) have nd: "\<not> is_dir fs1 dest" by (simp add: is_dir_def stat_None)
  from assms(2) have r: "resolve fs1 40 dest = Some dest" by (simp add: resolve_no_link)
  from assms(1) nd obtain content where c: "open_read fs1 f = Inr content"
    and w: "open_write fs1 dest content = Inr fs'"
    by (auto simp: materialize_def shutil_copy_def split: if_splits sum.splits)
  from w r assms(2) have "fs' = fs1 @ [(dest, File content)]"
    by (auto simp: open_write_def split: option.splits)
  with assms(2) have "lookup fs' dest = Some (File content)" by (simp add: lookup_append_new)
  with c show ?thesis by blast
qed

lemma eval_medium:
  "relocate_file (scenario_fs @ [([''out''], Dir)]) [''out''] ''medium_range'' False 1
      day_20200601 forcing_f003 =
   Inr (scenario_fs @ [([''out''], Dir), ([''out'', ''2020060100''], Dir),
      ([''out'', ''2020060100'', ''2020060103.LDASIN_DOMAIN1''], Link forcing_f003)])"
  by (simp add: eval_simps)

lemma eval_fields_f003:
  "item (str_split ''.'' (path_name forcing_f003)) 1 = Inr ''t00z''"
  "item (str_split ''.'' (path_name forcing_f003)) 4 = Inr ''f003''"
  "first_int ''t00z'' = Inr 0" "first_int ''f003'' = Inr 3"
  "add_hours day_20200601 0 = Inr \<lparr>year = 2020, month = 6, day = 1, hour = 0\<rparr>"
  "add_hours day_20200601 3 = Inr \<lparr>year = 2020, month = 6, day = 1, hour = 3\<rparr>"
  "add_hours day_20200601 (-3) = Inr \<lparr>year = 2020, month = 5, day = 31, hour = 21\<rparr>"
  by (simp_all add: eval_simps)

subsection \<open>The two formats\<close>

lemma strftime_hour_format:
  "strftime t ''%Y%m%d%H.LDASIN_DOMAIN1''
     = pad4 (year t) @ pad2 (month t) @ pad2 (day t) @ pad2 (hour t) @ ''.LDASIN_DOMAIN1''"
  by (simp add: strftime.simps)

lemma strftime_minute_format:
  "strftime t ''%Y%m%d%H00.LDASIN_DOMAIN1''
     = pad4 (year t) @ pad2 (month t) @ pad2 (day t) @ pad2 (hour t) @ ''00.LDASIN_DOMAIN1''"
  by (simp add: strftime.simps)

lemma strftime_dir_format:
  "strftime t ''%Y%m%d%H'' = pad4 (year t) @ pad2 (month t) @ pad2 (day t) @ pad2 (hour t)"
  by (simp add: strftime.simps)

text \<open>
  Claim C2, amended. For a file whose two numbers parse and whose directory can be made,
  \<open>forc_type = 1\<close> names the entry YYYYMMDDHH.LDASIN_DOMAIN1 and \<open>forc_type = 2\<close> names it
  YYYYMMDDHH00.LDASIN_DOMAIN1; any other \<open>forc_type\<close> fails there with the \<open>ValueError\<close>
  of the unsupported format, and the file's init-time directory (new, unless it was there)
  is all that the step has added: no file entry.
\<close>

theorem forc_type_formats:
  assumes "item (str_split ''.'' (path_name forcing_file)) 1 = Inr field1"
    and "first_int field1 = Inr h"
    and "add_hours the_day h = Inr init_time"
    and "path_mkdir fs (ldasin_dir @ [strftime init_time ''%Y%m%d%H'']) = Inr fs1"
    and "item (str_split ''.'' (path_name forcing_file)) 4 = Inr field4"
    and "first_int field4 = Inr c"
    and "add_hours the_day (if contains ''analysis_assim'' rng then h - c else h + c) = Inr t"
  shows "(forc_type = 1 \<longrightarrow>
           relocate_file fs ldasin_dir rng copy forc_type the_day forcing_file =
             (case materialize fs1 copy forcing_file
                     (ldasin_dir @ [strftime init_time ''%Y%m%d%H'',
                        pad4 (year t) @ pad2 (month t) @ pad2 (day t) @ pad2 (hour t)
                          @ ''.LDASIN_DOMAIN1'']) of
                Inl e \<Rightarrow> Inl (e, fs1) | Inr fs2 \<Rightarrow> Inr fs2)) \<and>
         (forc_type = 2 \<longrightarrow>
           relocate_file fs ldasin_dir rng copy forc_type the_day forcing_file =
             (case materialize fs1 copy forcing_file
                     (ldasin_dir @ [strftime init_time ''%Y%m%d%H'',
                        pad4 (year t) @ pad2 (month t) @ pad2 (day t) @ pad2 (hour t)
                          @ ''00.LDASIN_DOMAIN1'']) of
                Inl e \<Rightarrow> Inl (e, fs1) | Inr fs2 \<Rightarrow> Inr fs2)) \<and>
         (forc_type \<noteq> 1 \<and> forc_type \<noteq> 2 \<longrightarrow>
           relocate_file fs ldasin_dir rng copy forc_type the_day forcing_file =
             Inl (unsupported_forc_type, fs1) \<and>
           (fs1 = fs \<or> fs1 = fs @ [(ldasin_dir @ [strftime init_time ''%Y%m%d%H''], Dir)]))"
proof -
  note eq = relocate_file_steps [OF assms, of copy forc_type]
  have a: "forc_type = 1 \<longrightarrow>
           relocate_file fs ldasin_dir rng copy forc_type the_day forcing_file =
             (case materialize fs1 copy forcing_file
                     (ldasin_dir @ [strftime init_time ''%Y%m%d%H'',
                        pad4 (year t) @ pad2 (month t) @ pad2 (day t) @ pad2 (hour t)
                          @ ''.LDASIN_DOMAIN1'']) of
                Inl e \<Rightarrow> Inl (e, fs1) | Inr fs2 \<Rightarrow> Inr fs2)"
  proof
    assume f: "forc_type = 1"
    from eq show "relocate_file fs ldasin_dir rng copy forc_type the_day forcing_file =
             (case materialize fs1 copy forcing_file
                     (ldasin_dir @ [strftime init_time ''%Y%m%d%H'',
                        pad4 (year t) @ pad2 (month t) @ pad2 (day t) @ pad2 (hour t)
                          @ ''.LDASIN_DOMAIN1'']) of
                Inl e \<Rightarrow> Inl (e, fs1) | Inr fs2 \<Rightarrow> Inr fs2)"
      unfolding f by (simp add: ldasin_format_def strftime_hour_format)
  qed
  have b: "forc_type = 2 \<longrightarrow>
           relocate_file fs ldasin_dir rng copy forc_type the_day forcing_file =
             (case materialize fs1 copy forcing_file
                     (ldasin_dir @ [strftime init_time ''%Y%m%d%H'',
                        pad4 (year t) @ pad2 (month t) @ pad2 (day t) @ pad2 (hour t)
                          @ ''00.LDASIN_DOMAIN1'']) of
                Inl e \<Rightarrow> Inl (e, fs1) | Inr fs2 \<Rightarrow> Inr fs2)"
  proof
    assume f: "forc_type = 2"
    from eq show "relocate_file fs ldasin_dir rng copy forc_type the_day forcing_file =
             (case materialize fs1 copy forcing_file
                     (ldasin_dir @ [strftime init_time ''%Y%m%d%H'',
                        pad4 (year t) @ pad2 (month t) @ pad2 (day t) @ pad2 (hour t)
                          @ ''00.LDASIN_DOMAIN1'']) of
                Inl e \<Rightarrow> Inl (e, fs1) | Inr fs2 \<Rightarrow> Inr fs2)"
      unfolding f by (simp add: ldasin_format_def strftime_minute_format)
  qed
  have c: "forc_type \<noteq> 1 \<and> forc_type \<noteq> 2 \<longrightarrow>
           relocate_file fs ldasin_dir rng copy forc_type the_day forcing_file =
             Inl (unsupported_forc_type, fs1)"
    using eq by (simp add: ldasin_format_def)
  from path_mkdir_Inr [OF assms(4)]
  have d: "fs1 = fs \<or> fs1 = fs @ [(ldasin_dir @ [strftime init_time ''%Y%m%d%H''], Dir)]"
    by blast
  from a b c d show ?thesis by blast
qed

lemma eval_mkdir_out:
  "path_mkdir (scenario_fs @ [([''out''], Dir)])
      ([''out''] @ [strftime \<lparr>year = 2020, month = 6, day = 1, hour = 0\<rparr> ''%Y%m%d%H''])
    = Inr (scenario_fs @ [([''out''], Dir), ([''out'', ''2020060100''], Dir)])"
  by (simp add: eval_simps)

theorem forc_type_formats_witness:
  "relocate_file (scenario_fs @ [([''out''], Dir)]) [''out''] ''medium_range'' True 3
      day_20200601 forcing_f003 =
     Inl (unsupported_forc_type, scenario_fs @ [([''out''], Dir), ([''out'', ''2020060100''], Dir)]) \<and>
   relocate_file (scenario_fs @ [([''out''], Dir)]) [''out''] ''medium_range'' True 2
      day_20200601 forcing_f003 =
     Inr (scenario_fs @ [([''out''], Dir), ([''out'', ''2020060100''], Dir),
       ([''out'', ''2020060100'', ''202006010300.LDASIN_DOMAIN1''], File ''f003'')])"
proof -
  have nc: "add_hours day_20200601
      (if contains ''analysis_assim'' ''medium_range'' then 0 - 3 else 0 + 3)
      = Inr \<lparr>year = 2020, month = 6, day = 1, hour = 3\<rparr>"
    using eval_fields_f003(6) by simp
  note w = forc_type_formats [OF eval_fields_f003(1) eval_fields_f003(3) eval_fields_f003(5)
      eval_mkdir_out eval_fields_f003(2) eval_fields_f003(4) nc]
  from w [where copy = True and forc_type = 3]
  have a: "relocate_file (scenario_fs @ [([''out''], Dir)]) [''out''] ''medium_range'' True 3
      day_20200601 forcing_f003 =
     Inl (unsupported_forc_type, scenario_fs @ [([''out''], Dir), ([''out'', ''2020060100''], Dir)])"
    by simp
  have m: "materialize (scenario_fs @ [([''out''], Dir), ([''out'', ''2020060100''], Dir)]) True
      forcing_f003 [''out'', ''2020060100'', ''202006010300.LDASIN_DOMAIN1'']
     = Inr (scenario_fs @ [([''out''], Dir), ([''out'', ''2020060100''], Dir),
       ([''out'', ''2020060100'', ''202006010300.LDASIN_DOMAIN1''], File ''f003'')])"
    by (simp add: eval_simps)
  from w [where copy = True and forc_type = 2]
  have "relocate_file (scenario_fs @ [([''out''], Dir)]) [''out''] ''medium_range'' True 2
      day_20200601 forcing_f003 =
     (case materialize (scenario_fs @ [([''out''], Dir), ([''out'', ''2020060100''], Dir)]) True
        forcing_f003 [''out'', ''2020060100'', ''202006010300.LDASIN_DOMAIN1''] of
        Inl e \<Rightarrow> Inl (e, scenario_fs @ [([''out''], Dir), ([''out'', ''2020060100''], Dir)])
      | Inr fs2 \<Rightarrow> Inr fs2)"
    by (simp add: strftime.simps pad2_def pad4_def digit_char_def)
  with m have b: "relocate_file (scenario_fs @ [([''out''], Dir)]) [''out''] ''medium_range'' True 2
      day_20200601 forcing_f003 =
     Inr (scenario_fs @ [([''out''], Dir), ([''out'', ''2020060100''], Dir),
       ([''out'', ''2020060100'', ''202006010300.LDASIN_DOMAIN1''], File ''f003'')])"
    by simp
  from a b show ?thesis by (intro conjI)
qed

text \<open>
  The claim as it is written fails twice: with no file of the category (here
  \<open>short_range\<close>) the call with \<open>forc_type = 3\<close> returns with no error; with a file, the
  error comes after the directory \<open>out/2020060100\<close> has been created.
\<close>

theorem unsupported_forc_type_counterexample:
  "nwm_forcing_to_ldasin scenario (SingleDir [''data'']) [''out''] ''short_range'' False 3 =
     Inr \<lparr>files = scenario_fs @ [([''out''], Dir)], cwd = [''data''], warnings = []\<rparr> \<and>
   nwm_forcing_to_ldasin scenario (SingleDir [''data'']) [''out''] ''medium_range'' False 3 =
     Inl (ValueError ''Only forc_type 1 and 2 are supported'',
          \<lparr>files = scenario_fs @ [([''out''], Dir), ([''out'', ''2020060100''], Dir)],
             cwd = [''data''], warnings = []\<rparr>) \<and>
   lookup scenario_fs [''out'', ''2020060100''] = None \<and>
   lookup (scenario_fs @ [([''out''], Dir), ([''out'', ''2020060100''], Dir)])
     [''out'', ''2020060100''] = Some Dir"
  by (simp add: eval_simps)

subsection \<open>The scenario\<close>

text \<open>
  Claim C5, amended. In the scenario (day directory \<open>nwm.20200601\<close>, member directory
  \<open>forcing_medium_range\<close>, file \<open>nwm.t00z.medium_range.forcing.f003.conus.nc\<close>, category
  \<open>medium_range\<close>, \<open>forc_type = 1\<close>) the destination entry is
  \<open>2020060100/2020060103.LDASIN_DOMAIN1\<close>: a link to the source file, or with \<open>copy\<close> a file
  of its content. The directory has the ten characters of YYYYMMDDHH.
\<close>

theorem scenario_destination:
  "(\<exists>w'. nwm_forcing_to_ldasin scenario (DirList [[''data'', ''nwm.20200601'']]) [''out'']
            ''medium_range'' False 1 = Inr w' \<and>
      lookup (files w') [''out'', ''2020060100'', ''2020060103.LDASIN_DOMAIN1'']
        = Some (Link forcing_f003)) \<and>
   (\<exists>w'. nwm_forcing_to_ldasin scenario (DirList [[''data'', ''nwm.20200601'']]) [''out'']
            ''medium_range'' True 1 = Inr w' \<and>
      lookup (files w') [''out'', ''2020060100'', ''2020060103.LDASIN_DOMAIN1'']
        = Some (File ''f003'')) \<and>
   lookup scenario_fs forcing_f003 = Some (File ''f003'')"
  by (simp add: eval_simps)

text \<open>The directory \<open>20200600\<close> of the claim as it is written is not created.\<close>

theorem scenario_destination_counterexample:
  "nwm_forcing_to_ldasin scenario (DirList [[''data'', ''nwm.20200601'']]) [''out'']
     ''medium_range'' False 1 =
   Inr \<lparr>files = scenario_fs @
          [([''out''], Dir), ([''out'', ''2020060100''], Dir),
           ([''out'', ''2020060100'', ''2020060103.LDASIN_DOMAIN1''], Link forcing_f003)],
        cwd = [], warnings = []\<rparr> \<and>
   lookup (scenario_fs @
          [([''out''], Dir), ([''out'', ''2020060100''], Dir),
           ([''out'', ''2020060100'', ''2020060103.LDASIN_DOMAIN1''], Link forcing_f003)])
     [''out'', ''20200600'', ''2020060103.LDASIN_DOMAIN1''] = None \<and>
   lookup (scenario_fs @
          [([''out''], Dir), ([''out'', ''2020060100''], Dir),
           ([''out'', ''2020060100'', ''2020060103.LDASIN_DOMAIN1''], Link forcing_f003)])
     [''out'', ''20200600''] = None"
  by (simp add: eval_simps)

subsection \<open>The source list\<close>

lemma days_loop_not_source_missing:
  assumes "days_loop fs ld rng copy ft ds = Inl (e, fs')"
  shows "e \<noteq> source_dirs_missing"
proof -
  from days_loop_Inl [OF assms] consider
      (bad_day) "\<exists>d\<in>set ds. strptime_nwm (path_name d) = Inl e"
    | (bad_file) "\<exists>fs0 D f. relocate_file fs0 ld rng copy ft D f = Inl (e, fs')"
    | (bad_pattern) "e = unacceptable_pattern \<or> e = invalid_pattern"
    by blast
  then show ?thesis
  proof cases
    case bad_day
    then obtain m where "e = ValueError m" by (auto dest: strptime_nwm_error)
    then show ?thesis by (simp add: source_dirs_missing_def)
  next
    case bad_file
    then obtain fs0 D f where "relocate_file fs0 ld rng copy ft D f = Inl (e, fs')" by blast
    from relocate_file_Inl [OF this] show ?thesis
      by (auto simp: source_dirs_missing_def unsupported_forc_type_def os_error_def enoent_def)
  next
    case bad_pattern
    then show ?thesis
      by (auto simp: source_dirs_missing_def unacceptable_pattern_def invalid_pattern_def)
  qed
qed

text \<open>
  Claim C6, amended. With the source given as a list and the destination root in place,
  the call fails with a \<open>FileNotFoundError\<close> as soon as one listed directory does not
  exist; its message is the fixed text \<^verbatim>\<open>Some requested daily nwm forcing source dirs do
  not exist\<close>, the same whichever directories are missing, and it names none of them.
  When all listed directories exist, the call does not end in that error.
\<close>

theorem source_list_checked:
  assumes "(if \<not> path_exists (files w) ldasin_dir then os_mkdir (files w) ldasin_dir
            else Inr (files w)) = Inr fs1"
  shows "(\<not> list_all (path_exists fs1) dds \<longrightarrow>
            nwm_forcing_to_ldasin w (DirList dds) ldasin_dir rng copy forc_type =
              Inl (FileNotFoundError ''Some requested daily nwm forcing source dirs do not exist'',
                   w\<lparr>files := fs1\<rparr>)) \<and>
         (list_all (path_exists fs1) dds \<longrightarrow>
            (\<forall>w'. nwm_forcing_to_ldasin w (DirList dds) ldasin_dir rng copy forc_type \<noteq>
              Inl (FileNotFoundError ''Some requested daily nwm forcing source dirs do not exist'',
                   w')))"
proof (intro conjI impI allI)
  assume "\<not> list_all (path_exists fs1) dds"
  with assms have "prepare w (DirList dds) ldasin_dir = Inl (source_dirs_missing, w\<lparr>files := fs1\<rparr>)"
    by (simp add: prepare_def)
  then show "nwm_forcing_to_ldasin w (DirList dds) ldasin_dir rng copy forc_type =
      Inl (FileNotFoundError ''Some requested daily nwm forcing source dirs do not exist'',
           w\<lparr>files := fs1\<rparr>)"
    by (simp add: nwm_forcing_to_ldasin_def source_dirs_missing_def)
next
  fix w'
  assume "list_all (path_exists fs1) dds"
  with assms have p: "prepare w (DirList dds) ldasin_dir = Inr (w\<lparr>files := fs1\<rparr>, dds)"
    by (simp add: prepare_def)
  show "nwm_forcing_to_ldasin w (DirList dds) ldasin_dir rng copy forc_type \<noteq>
      Inl (FileNotFoundError ''Some requested daily nwm forcing source dirs do not exist'', w')"
  proof
    assume a: "nwm_forcing_to_ldasin w (DirList dds) ldasin_dir rng copy forc_type =
      Inl (FileNotFoundError ''Some requested daily nwm forcing source dirs do not exist'', w')"
    from a p obtain fs' where
      "days_loop fs1 ldasin_dir (normalize_range rng) copy forc_type dds = Inl (source_dirs_missing, fs')"
      by (auto simp: nwm_forcing_to_ldasin_def Let_def source_dirs_missing_def split: sum.splits)
    from days_loop_not_source_missing [OF this] show False by simp
  qed
qed

theorem source_list_checked_witness:
  "nwm_forcing_to_ldasin scenario (DirList [[''data'', ''nwm.20200601''], [''nope'']]) [''out'']
     ''medium_range'' False 1 =
     Inl (FileNotFoundError ''Some requested daily nwm forcing source dirs do not exist'',
          scenario\<lparr>files := scenario_fs @ [([''out''], Dir)]\<rparr>) \<and>
   nwm_forcing_to_ldasin scenario (DirList [[''data'', ''nwm.20200601'']]) [''out'']
     ''medium_range'' False 3 \<noteq>
     Inl (FileNotFoundError ''Some requested daily nwm forcing source dirs do not exist'',
          scenario\<lparr>files := scenario_fs @ [([''out''], Dir)]\<rparr>)"
proof -
  have h: "(if \<not> path_exists (files scenario) [''out''] then os_mkdir (files scenario) [''out'']
            else Inr (files scenario)) = Inr (scenario_fs @ [([''out''], Dir)])"
    by (simp add: eval_simps)
  have m: "\<not> list_all (path_exists (scenario_fs @ [([''out''], Dir)]))
      [[''data'', ''nwm.20200601''], [''nope'']]"
    by (simp add: eval_simps)
  have a: "list_all (path_exists (scenario_fs @ [([''out''], Dir)])) [[''data'', ''nwm.20200601'']]"
    by (simp add: eval_simps)
  note t = source_list_checked [OF h]
  from t [of "[[''data'', ''nwm.20200601''], [''nope'']]" "''medium_range''" False 1] m
  have 1: "nwm_forcing_to_ldasin scenario (DirList [[''data'', ''nwm.20200601''], [''nope'']]) [''out'']
     ''medium_range'' False 1 =
     Inl (FileNotFoundError ''Some requested daily nwm forcing source dirs do not exist'',
          scenario\<lparr>files := scenario_fs @ [([''out''], Dir)]\<rparr>)"
    by blast
  from t [of "[[''data'', ''nwm.20200601'']]" "''medium_range''" False 3] a
  have 2: "nwm_forcing_to_ldasin scenario (DirList [[''data'', ''nwm.20200601'']]) [''out'']
     ''medium_range'' False 3 \<noteq>
     Inl (FileNotFoundError ''Some requested daily nwm forcing source dirs do not exist'',
          scenario\<lparr>files := scenario_fs @ [([''out''], Dir)]\<rparr>)"
    by blast
  from 1 2 show ?thesis by (intro conjI)
qed

text \<open>
  The claim as it is written has the error list the missing entries. The error of a call
  whose list misses \<open>nope\<close> is the one of a call whose list misses \<open>gone\<close>, and the name of
  neither is in its message.
\<close>

theorem source_list_message_counterexample:
  "nwm_forcing_to_ldasin scenario (DirList [[''data'', ''nwm.20200601''], [''nope'']]) [''out'']
     ''medium_range'' False 1 =
     Inl (FileNotFoundError ''Some requested daily nwm forcing source dirs do not exist'',
          \<lparr>files = scenario_fs @ [([''out''], Dir)], cwd = [], warnings = []\<rparr>) \<and>
   nwm_forcing_to_ldasin scenario (DirList [[''gone'']]) [''out''] ''medium_range'' False 1 =
     Inl (FileNotFoundError ''Some requested daily nwm forcing source dirs do not exist'',
          \<lparr>files = scenario_fs @ [([''out''], Dir)], cwd = [], warnings = []\<rparr>) \<and>
   contains ''nope'' ''Some requested daily nwm forcing source dirs do not exist'' = False \<and>
   contains ''gone'' ''Some requested daily nwm forcing source dirs do not exist'' = False"
  by (simp add: eval_simps)

subsection \<open>The patterns of a Hawaii category\<close>

lemma prefix_append_cases:
  "prefix (a # p) (s @ t) = (case s of [] \<Rightarrow> prefix (a # p) t | c # s' \<Rightarrow> c = a \<and> prefix p (s' @ t))"
  by (cases s) auto

lemma hawaii_no_overlap:
  assumes "\<not> contains ''_hawaii'' s" and "s \<noteq> []"
  shows "\<not> prefix ''_hawaii'' (s @ ''_hawaii'' @ rest)"
  using assms
  by (auto simp: prefix_append_cases split: list.splits)

lemma split_hawaii:
  assumes "\<not> contains ''_hawaii'' stem"
  shows "split_from ''_hawaii'' cur (stem @ ''_hawaii'' @ rest)
     = (cur @ stem) # split_from ''_hawaii'' [] rest"
  using assms
proof (induction stem arbitrary: cur)
  case Nil
  then show ?case by simp
next
  case (Cons c cs)
  from Cons.prems have nc: "\<not> contains ''_hawaii'' cs" by simp
  have ne: "c # cs \<noteq> []" by simp
  from hawaii_no_overlap [OF Cons.prems ne, of rest]
  have np: "prefix ''_hawaii'' (c # (cs @ ''_hawaii'' @ rest)) = False"
    unfolding append_Cons by (rule eq_False [THEN iffD2])
  have "split_from ''_hawaii'' cur (c # (cs @ ''_hawaii'' @ rest))
     = split_from ''_hawaii'' (cur @ [c]) (cs @ ''_hawaii'' @ rest)"
    by (subst split_from.simps(2)) (simp only: np simp_thms if_False)
  also have "\<dots> = ((cur @ [c]) @ cs) # split_from ''_hawaii'' [] rest"
    by (rule Cons.IH [OF nc])
  finally show ?case by simp
qed

lemma contains_append:
  "contains sub b \<Longrightarrow> contains sub (a @ b)"
  by (induction a) auto

lemma contains_self_append: "contains sub (sub @ rest)"
proof (cases "sub @ rest")
  case Nil
  then show ?thesis by simp
next
  case (Cons a l)
  have "prefix sub (sub @ rest)" by simp
  with Cons show ?thesis by simp
qed

text \<open>
  For a category in which \<open>_hawaii\<close> first occurs after a stem, the second pattern is
  built from the stem, and the first from the whole category.
\<close>

lemma stem_patterns:
  assumes "\<not> contains ''_hawaii'' stem"
  shows "file_pattern (stem @ ''_hawaii'' @ rest) = ''*'' @ stem @ ''.forcing.*''"
    and "member_pattern (stem @ ''_hawaii'' @ rest) = ''forcing_'' @ stem @ ''_hawaii'' @ rest"
proof -
  have c: "contains ''_hawaii'' (stem @ ''_hawaii'' @ rest)"
    by (rule contains_append) (rule contains_self_append)
  have "str_split ''_hawaii'' (stem @ ''_hawaii'' @ rest) = stem # split_from ''_hawaii'' [] rest"
    using split_hawaii [OF assms, of "[]" rest] by (simp add: str_split_def)
  with c have r: "re_range (stem @ ''_hawaii'' @ rest) = stem" by (simp add: re_range_def)
  then show "file_pattern (stem @ ''_hawaii'' @ rest) = ''*'' @ stem @ ''.forcing.*''"
    by (simp add: file_pattern_def)
  show "member_pattern (stem @ ''_hawaii'' @ rest) = ''forcing_'' @ stem @ ''_hawaii'' @ rest"
    by (simp add: member_pattern_def)
qed

lemma hawaii_stems:
  assumes "stem @ ''_hawaii'' \<in> set range_categories"
  shows "stem = ''analysis_assim'' \<or> stem = ''short_range''"
proof -
  from assms have "stem @ ''_hawaii'' = ''analysis_assim'' @ ''_hawaii'' \<or>
      stem @ ''_hawaii'' = ''short_range'' @ ''_hawaii'' \<or>
      length (stem @ ''_hawaii'') \<in> {14, 21, 12, 11} \<and> stem @ ''_hawaii'' \<in> set range_categories"
    by (auto simp: range_categories_def)
  then show ?thesis
  proof (elim disjE conjE)
    assume "stem @ ''_hawaii'' = ''analysis_assim'' @ ''_hawaii''"
    then show ?thesis by (simp only: append_same_eq) simp
  next
    assume "stem @ ''_hawaii'' = ''short_range'' @ ''_hawaii''"
    then show ?thesis by (simp only: append_same_eq) simp
  next
    assume l: "length (stem @ ''_hawaii'') \<in> {14, 21, 12, 11}"
      and m: "stem @ ''_hawaii'' \<in> set range_categories"
    from m have "suffix ''_hawaii'' (stem @ ''_hawaii'')" by (simp add: suffix_def)
    with m l show ?thesis
      by (auto simp: range_categories_def suffix_def Cons_eq_append_conv append_eq_Cons_conv)
  qed
qed

text \<open>
  Claim C7. For a category of the documentation that ends in \<open>_hawaii\<close>, with \<open>stem\<close> what
  is before the suffix (\<open>short_range\<close> of \<open>short_range_hawaii\<close>), the pattern that selects
  the files is built from the stem alone, \<^verbatim>\<open>*stem.forcing.*\<close>, and the member directories
  are discovered with the full category, suffix and all: a day's member directories are
  the sorted matches of \<^verbatim>\<open>forcing_stem_hawaii\<close>, and the files of a member directory are
  the matches of \<^verbatim>\<open>*stem.forcing.*\<close>.
\<close>

theorem hawaii_patterns:
  assumes "stem @ ''_hawaii'' \<in> set range_categories"
  shows "file_pattern (stem @ ''_hawaii'') = ''*'' @ stem @ ''.forcing.*'' \<and>
         member_pattern (stem @ ''_hawaii'') = ''forcing_'' @ stem @ ''_hawaii'' \<and>
         (is_dir fs member_dir \<longrightarrow>
            members_loop fs ldasin_dir (stem @ ''_hawaii'') copy forc_type the_day [member_dir]
              = (case glob fs member_dir (''*'' @ stem @ ''.forcing.*'') of
                   Inl e \<Rightarrow> Inl (e, fs)
                 | Inr forcing_files \<Rightarrow>
                     files_loop fs ldasin_dir (stem @ ''_hawaii'') copy forc_type the_day
                       forcing_files)) \<and>
         days_loop fs ldasin_dir (stem @ ''_hawaii'') copy forc_type [daily_dir]
           = (case strptime_nwm (path_name daily_dir) of
                Inl e \<Rightarrow> Inl (e, fs)
              | Inr D \<Rightarrow>
                  (case glob fs daily_dir (''forcing_'' @ stem @ ''_hawaii'') of
                     Inl e \<Rightarrow> Inl (e, fs)
                   | Inr found \<Rightarrow>
                       members_loop fs ldasin_dir (stem @ ''_hawaii'') copy forc_type D
                         (sort found)))"
proof -
  from hawaii_stems [OF assms] have n: "\<not> contains ''_hawaii'' stem" by auto
  from stem_patterns(1) [OF n, of "[]"]
  have f: "file_pattern (stem @ ''_hawaii'') = ''*'' @ stem @ ''.forcing.*''" by simp
  from stem_patterns(2) [OF n, of "[]"]
  have m: "member_pattern (stem @ ''_hawaii'') = ''forcing_'' @ stem @ ''_hawaii''" by simp
  have l: "is_dir fs member_dir \<longrightarrow>
            members_loop fs ldasin_dir (stem @ ''_hawaii'') copy forc_type the_day [member_dir]
              = (case glob fs member_dir (''*'' @ stem @ ''.forcing.*'') of
                   Inl e \<Rightarrow> Inl (e, fs)
                 | Inr forcing_files \<Rightarrow>
                     files_loop fs ldasin_dir (stem @ ''_hawaii'') copy forc_type the_day
                       forcing_files)"
    by (simp only: f [symmetric]) (simp split: sum.splits)
  have d: "days_loop fs ldasin_dir (stem @ ''_hawaii'') copy forc_type [daily_dir]
           = (case strptime_nwm (path_name daily_dir) of
                Inl e \<Rightarrow> Inl (e, fs)
              | Inr D \<Rightarrow>
                  (case glob fs daily_dir (''forcing_'' @ stem @ ''_hawaii'') of
                     Inl e \<Rightarrow> Inl (e, fs)
                   | Inr found \<Rightarrow>
                       members_loop fs ldasin_dir (stem @ ''_hawaii'') copy forc_type D
                         (sort found)))"
    by (simp only: m [symmetric]) (simp split: sum.splits)
  from f m l d show ?thesis by (intro conjI)
qed

text \<open>
  On the Hawaii tree: the patterns of \<open>short_range_hawaii\<close> and of
  \<open>analysis_assim_hawaii\<close>, what they select, and the call, which relocates the file of
  the Hawaii member directory and leaves the other member directory alone.
\<close>

theorem hawaii_patterns_witness:
  "''short_range'' @ ''_hawaii'' \<in> set range_categories \<and>
   ''analysis_assim'' @ ''_hawaii'' \<in> set range_categories \<and>
   file_pattern ''short_range_hawaii'' = ''*short_range.forcing.*'' \<and>
   member_pattern ''short_range_hawaii'' = ''forcing_short_range_hawaii'' \<and>
   file_pattern ''analysis_assim_hawaii'' = ''*analysis_assim.forcing.*'' \<and>
   member_pattern ''analysis_assim_hawaii'' = ''forcing_analysis_assim_hawaii'' \<and>
   glob hawaii_fs [''data'', ''nwm.20200601''] ''forcing_short_range_hawaii''
     = Inr [[''data'', ''nwm.20200601'', ''forcing_short_range_hawaii'']] \<and>
   glob hawaii_fs [''data'', ''nwm.20200601'', ''forcing_short_range_hawaii'']
     ''*short_range.forcing.*'' = Inr [hawaii_f001] \<and>
   nwm_forcing_to_ldasin hawaii_world (SingleDir [''data'']) [''out''] ''short_range_hawaii''
     False 1 =
   Inr \<lparr>files = hawaii_fs @
          [([''out''], Dir), ([''out'', ''2020060100''], Dir),
           ([''out'', ''2020060100'', ''2020060101.LDASIN_DOMAIN1''], Link hawaii_f001)],
        cwd = [''data''], warnings = []\<rparr>"
proof -
  have h1: "''short_range'' @ ''_hawaii'' \<in> set range_categories"
    by (simp add: range_categories_def)
  have h2: "''analysis_assim'' @ ''_hawaii'' \<in> set range_categories"
    by (simp add: range_categories_def)
  from hawaii_patterns [OF h1]
  have s: "file_pattern (''short_range'' @ ''_hawaii'') = ''*'' @ ''short_range'' @ ''.forcing.*''"
    "member_pattern (''short_range'' @ ''_hawaii'') = ''forcing_'' @ ''short_range'' @ ''_hawaii''"
    by blast+
  from hawaii_patterns [OF h2]
  have a: "file_pattern (''analysis_assim'' @ ''_hawaii'') = ''*'' @ ''analysis_assim'' @ ''.forcing.*''"
    "member_pattern (''analysis_assim'' @ ''_hawaii'') = ''forcing_'' @ ''analysis_assim'' @ ''_hawaii''"
    by blast+
  have g1: "glob hawaii_fs [''data'', ''nwm.20200601''] ''forcing_short_range_hawaii''
     = Inr [[''data'', ''nwm.20200601'', ''forcing_short_range_hawaii'']]"
    by (simp add: eval_simps hawaii_fs_def hawaii_f001_def)
  have g2: "glob hawaii_fs [''data'', ''nwm.20200601'', ''forcing_short_range_hawaii'']
     ''*short_range.forcing.*'' = Inr [hawaii_f001]"
    by (simp add: eval_simps hawaii_fs_def hawaii_f001_def)
  have r: "nwm_forcing_to_ldasin hawaii_world (SingleDir [''data'']) [''out''] ''short_range_hawaii''
     False 1 =
   Inr \<lparr>files = hawaii_fs @
          [([''out''], Dir), ([''out'', ''2020060100''], Dir),
           ([''out'', ''2020060100'', ''2020060101.LDASIN_DOMAIN1''], Link hawaii_f001)],
        cwd = [''data''], warnings = []\<rparr>"
    by (simp add: eval_simps hawaii_fs_def hawaii_f001_def hawaii_world_def)
  from s a have p: "file_pattern ''short_range_hawaii'' = ''*short_range.forcing.*''"
    "member_pattern ''short_range_hawaii'' = ''forcing_short_range_hawaii''"
    "file_pattern ''analysis_assim_hawaii'' = ''*analysis_assim.forcing.*''"
    "member_pattern ''analysis_assim_hawaii'' = ''forcing_analysis_assim_hawaii''"
    by simp_all
  from h1 h2 p g1 g2 r show ?thesis by (intro conjI)
qed

subsection \<open>A destination that exists\<close>

lemma symlink_over_existing:
  assumes "lookup fs1 dest \<noteq> None"
  shows "materialize fs1 False f dest = Inl FileExistsError"
  using assms by (simp add: materialize_def symlink_to_def)

lemma copy_over_file:
  assumes "lookup fs1 dest = Some (File old)" and "open_read fs1 f = Inr content"
    and "\<not> samefile fs1 f dest"
  shows "materialize fs1 True f dest = Inr (AList.update dest (File content) fs1)"
proof -
  from assms(1) have nd: "\<not> is_dir fs1 dest" by (simp add: is_dir_def stat_File)
  from assms(1) have r: "resolve fs1 40 dest = Some dest" by (simp add: resolve_no_link)
  from r assms(1) have "open_write fs1 dest content = Inr (AList.update dest (File content) fs1)"
    by (simp add: open_write_def)
  with nd assms(2,3) show ?thesis by (simp add: materialize_def shutil_copy_def)
qed

lemma copy_onto_same_file:
  assumes "\<not> is_dir fs1 dest" and "samefile fs1 f dest"
  shows "materialize fs1 True f dest = Inl SameFileError"
  using assms by (simp add: materialize_def shutil_copy_def)

lemma lookup_update_same:
  assumes "dest \<noteq> []"
  shows "lookup (AList.update dest nd fs1) dest = Some nd"
  using assms by (simp add: lookup_def update_conv')

text \<open>
  Claim C9, amended. For a file whose computed destination name is taken: with
  \<open>copy = False\<close> the step fails with \<open>FileExistsError\<close>, whatever the entry is, and changes
  nothing more; with \<open>copy = True\<close> the step succeeds and the destination holds the
  content of the source when the entry is a regular file other than the source itself;
  when the entry leads to the source itself (the link of an earlier run without \<open>copy\<close>)
  the copy fails with \<open>SameFileError\<close>.
\<close>

theorem existing_destination:
  assumes "item (str_split ''.'' (path_name forcing_file)) 1 = Inr field1"
    and "first_int field1 = Inr h"
    and "add_hours the_day h = Inr init_time"
    and "path_mkdir fs (ldasin_dir @ [strftime init_time ''%Y%m%d%H'']) = Inr fs1"
    and "item (str_split ''.'' (path_name forcing_file)) 4 = Inr field4"
    and "first_int field4 = Inr c"
    and "add_hours the_day (if contains ''analysis_assim'' rng then h - c else h + c) = Inr t"
    and "ldasin_format forc_type = Inr fmt"
    and "dest = ldasin_dir @ [strftime init_time ''%Y%m%d%H'', strftime t fmt]"
  shows "(lookup fs1 dest \<noteq> None \<longrightarrow>
            relocate_file fs ldasin_dir rng False forc_type the_day forcing_file
              = Inl (FileExistsError, fs1)) \<and>
         (\<forall>old content.
            lookup fs1 dest = Some (File old) \<and> open_read fs1 forcing_file = Inr content \<and>
            \<not> samefile fs1 forcing_file dest \<longrightarrow>
              relocate_file fs ldasin_dir rng True forc_type the_day forcing_file
                = Inr (AList.update dest (File content) fs1) \<and>
              lookup (AList.update dest (File content) fs1) dest = Some (File content)) \<and>
         (\<not> is_dir fs1 dest \<and> samefile fs1 forcing_file dest \<longrightarrow>
            relocate_file fs ldasin_dir rng True forc_type the_day forcing_file
              = Inl (SameFileError, fs1))"
proof -
  note eq = relocate_file_steps [OF assms(1-7), where ft = forc_type]
  have ne: "dest \<noteq> []" by (simp add: assms(9))
  have a: "lookup fs1 dest \<noteq> None \<longrightarrow>
            relocate_file fs ldasin_dir rng False forc_type the_day forcing_file
              = Inl (FileExistsError, fs1)"
  proof
    assume "lookup fs1 dest \<noteq> None"
    from symlink_over_existing [OF this, of forcing_file] eq [where copy = False]
    show "relocate_file fs ldasin_dir rng False forc_type the_day forcing_file
              = Inl (FileExistsError, fs1)"
      by (simp add: assms(8,9))
  qed
  have b: "\<forall>old content.
            lookup fs1 dest = Some (File old) \<and> open_read fs1 forcing_file = Inr content \<and>
            \<not> samefile fs1 forcing_file dest \<longrightarrow>
              relocate_file fs ldasin_dir rng True forc_type the_day forcing_file
                = Inr (AList.update dest (File content) fs1) \<and>
              lookup (AList.update dest (File content) fs1) dest = Some (File content)"
  proof (intro allI impI)
    fix old content
    assume h: "lookup fs1 dest = Some (File old) \<and> open_read fs1 forcing_file = Inr content \<and>
            \<not> samefile fs1 forcing_file dest"
    then have "materialize fs1 True forcing_file dest = Inr (AList.update dest (File content) fs1)"
      by (intro copy_over_file) simp_all
    with eq [where copy = True]
    have "relocate_file fs ldasin_dir rng True forc_type the_day forcing_file
                = Inr (AList.update dest (File content) fs1)"
      by (simp add: assms(8,9))
    with lookup_update_same [OF ne]
    show "relocate_file fs ldasin_dir rng True forc_type the_day forcing_file
                = Inr (AList.update dest (File content) fs1) \<and>
              lookup (AList.update dest (File content) fs1) dest = Some (File content)"
      by simp
  qed
  have c: "\<not> is_dir fs1 dest \<and> samefile fs1 forcing_file dest \<longrightarrow>
            relocate_file fs ldasin_dir rng True forc_type the_day forcing_file
              = Inl (SameFileError, fs1)"
  proof
    assume "\<not> is_dir fs1 dest \<and> samefile fs1 forcing_file dest"
    then have "materialize fs1 True forcing_file dest = Inl SameFileError"
      by (intro copy_onto_same_file) simp_all
    with eq [where copy = True]
    show "relocate_file fs ldasin_dir rng True forc_type the_day forcing_file
              = Inl (SameFileError, fs1)"
      by (simp add: assms(8,9))
  qed
  from a b c show ?thesis by (intro conjI)
qed

lemma eval_stale:
  "path_mkdir stale_fs ([''out''] @ [strftime \<lparr>year = 2020, month = 6, day = 1, hour = 0\<rparr> ''%Y%m%d%H''])
     = Inr stale_fs"
  "ldasin_format 1 = Inr ''%Y%m%d%H.LDASIN_DOMAIN1''"
  "[''out'', ''2020060100'', ''2020060103.LDASIN_DOMAIN1'']
     = [''out''] @ [strftime \<lparr>year = 2020, month = 6, day = 1, hour = 0\<rparr> ''%Y%m%d%H'',
          strftime \<lparr>year = 2020, month = 6, day = 1, hour = 3\<rparr> ''%Y%m%d%H.LDASIN_DOMAIN1'']"
  "lookup stale_fs [''out'', ''2020060100'', ''2020060103.LDASIN_DOMAIN1''] = Some (File ''stale'')"
  "open_read stale_fs forcing_f003 = Inr ''f003''"
  "\<not> samefile stale_fs forcing_f003 [''out'', ''2020060100'', ''2020060103.LDASIN_DOMAIN1'']"
  "AList.update [''out'', ''2020060100'', ''2020060103.LDASIN_DOMAIN1''] (File ''f003'') stale_fs
     = scenario_fs @ [([''out''], Dir), ([''out'', ''2020060100''], Dir),
         ([''out'', ''2020060100'', ''2020060103.LDASIN_DOMAIN1''], File ''f003'')]"
  by (simp_all add: eval_simps stale_fs_def)

theorem existing_destination_witness:
  "lookup stale_fs [''out'', ''2020060100'', ''2020060103.LDASIN_DOMAIN1''] = Some (File ''stale'') \<and>
   relocate_file stale_fs [''out''] ''medium_range'' False 1 day_20200601 forcing_f003
     = Inl (FileExistsError, stale_fs) \<and>
   relocate_file stale_fs [''out''] ''medium_range'' True 1 day_20200601 forcing_f003
     = Inr (scenario_fs @ [([''out''], Dir), ([''out'', ''2020060100''], Dir),
         ([''out'', ''2020060100'', ''2020060103.LDASIN_DOMAIN1''], File ''f003'')])"
proof -
  let ?dest = "[''out'', ''2020060100'', ''2020060103.LDASIN_DOMAIN1'']"
  have nc: "add_hours day_20200601
      (if contains ''analysis_assim'' ''medium_range'' then 0 - 3 else 0 + 3)
      = Inr \<lparr>year = 2020, month = 6, day = 1, hour = 3\<rparr>"
    using eval_fields_f003(6) by simp
  note t = existing_destination [OF eval_fields_f003(1) eval_fields_f003(3) eval_fields_f003(5)
      eval_stale(1) eval_fields_f003(2) eval_fields_f003(4) nc eval_stale(2) eval_stale(3)]
  from t eval_stale(4)
  have a: "relocate_file stale_fs [''out''] ''medium_range'' False 1 day_20200601 forcing_f003
     = Inl (FileExistsError, stale_fs)"
    by simp
  from t have "lookup stale_fs ?dest = Some (File ''stale'') \<and>
      open_read stale_fs forcing_f003 = Inr ''f003'' \<and> \<not> samefile stale_fs forcing_f003 ?dest \<longrightarrow>
      relocate_file stale_fs [''out''] ''medium_range'' True 1 day_20200601 forcing_f003
        = Inr (AList.update ?dest (File ''f003'') stale_fs)"
    by blast
  with eval_stale(4,5,6)
  have "relocate_file stale_fs [''out''] ''medium_range'' True 1 day_20200601 forcing_f003
        = Inr (AList.update ?dest (File ''f003'') stale_fs)"
    by blast
  then have b: "relocate_file stale_fs [''out''] ''medium_range'' True 1 day_20200601 forcing_f003
     = Inr (scenario_fs @ [([''out''], Dir), ([''out'', ''2020060100''], Dir),
         ([''out'', ''2020060100'', ''2020060103.LDASIN_DOMAIN1''], File ''f003'')])"
    by (simp only: eval_stale(7))
  from eval_stale(4) a b show ?thesis by (intro conjI)
qed

text \<open>
  The claim as it is written fails where the destination that exists is the link of an
  earlier run: the first call, without \<open>copy\<close>, makes the link; the second, with
  \<open>copy = True\<close>, finds source and destination to be the same file and fails.
\<close>

theorem copy_over_link_counterexample:
  "nwm_forcing_to_ldasin scenario (DirList [[''data'', ''nwm.20200601'']]) [''out'']
     ''medium_range'' False 1 = Inr scenario_linked \<and>
   lookup (files scenario_linked) [''out'', ''2020060100'', ''2020060103.LDASIN_DOMAIN1'']
     = Some (Link forcing_f003) \<and>
   nwm_forcing_to_ldasin scenario_linked (DirList [[''data'', ''nwm.20200601'']]) [''out'']
     ''medium_range'' True 1 = Inl (SameFileError, scenario_linked)"
  by (simp add: eval_simps scenario_linked_def)









end
